theory Spec2Isabelle
  imports Main "HOL-Library.Word"
begin

section \<open>JavaScript strings and numbers\<close>

text \<open>
  A JavaScript string is a sequence of UTF-16 code units. Literals of the source are
  written \<open>ascii ''para''\<close>.
\<close>

type_synonym jschar = "16 word"
type_synonym jsstring = "jschar list"

definition ascii :: "string \<Rightarrow> jsstring" where
  "ascii s = map of_char s"

text \<open>
  The characters matched by \<open>\s\<close> in a regular expression and removed by
  \<open>String.prototype.trim\<close>: WhiteSpace and LineTerminator of ECMAScript.
\<close>

definition isWhiteSpace :: "jschar \<Rightarrow> bool" where
  "isWhiteSpace c =
     (c \<in> set [0x9, 0xA, 0xB, 0xC, 0xD, 0x20, 0xA0, 0x1680, 0x2028, 0x2029, 0x202F, 0x205F,
                0x3000, 0xFEFF]
      \<or> (0x2000 \<le> c \<and> c \<le> 0x200A))"

definition isDigit :: "jschar \<Rightarrow> bool" where
  "isDigit c = (0x30 \<le> c \<and> c \<le> 0x39)"

text \<open>\<open>String.prototype.trim\<close>.\<close>

definition trim :: "jsstring \<Rightarrow> jsstring" where
  "trim s = rev (dropWhile isWhiteSpace (rev (dropWhile isWhiteSpace s)))"

text \<open>\<open>Array.prototype.join\<close> on an array of strings.\<close>

fun join :: "jsstring \<Rightarrow> jsstring list \<Rightarrow> jsstring" where
  "join sep [] = []"
| "join sep [x] = x"
| "join sep (x # y # ys) = x @ sep @ join sep (y # ys)"

text \<open>
  A JavaScript number as far as the parser meets one: NaN, the infinities, and the doubles
  that hold an integer, \<open>Num i\<close> for the integer \<open>i\<close>. The model does not tell \<open>-0\<close> from
  \<open>0\<close> (they are equal under \<open>===\<close> and serialise alike).
\<close>

datatype jsnum = NaN | Num int | Infinity | MinusInfinity

text \<open>\<open><\<close> and \<open>>=\<close> on these numbers; every comparison with NaN is false.\<close>

fun jsLess :: "jsnum \<Rightarrow> jsnum \<Rightarrow> bool" where
  "jsLess (Num i) (Num j) = (i < j)"
| "jsLess (Num _) Infinity = True"
| "jsLess MinusInfinity (Num _) = True"
| "jsLess MinusInfinity Infinity = True"
| "jsLess _ _ = False"

fun jsGreaterEq :: "jsnum \<Rightarrow> jsnum \<Rightarrow> bool" where
  "jsGreaterEq NaN _ = False"
| "jsGreaterEq _ NaN = False"
| "jsGreaterEq a b = (\<not> jsLess a b)"

fun digitsValue :: "nat \<Rightarrow> jsstring \<Rightarrow> nat" where
  "digitsValue acc [] = acc"
| "digitsValue acc (c # cs) = digitsValue (10 * acc + (unat c - 48)) cs"

text \<open>The number of binary digits of a natural number.\<close>

fun bitLength :: "nat \<Rightarrow> nat" where
  "bitLength n = (if n = 0 then 0 else Suc (bitLength (n div 2)))"

declare bitLength.simps [simp del]

text \<open>
  The Number value of a non-negative integer, as a natural number or, beyond the largest
  double, none: an integer below \<open>2 ^ 53\<close> is a double; a larger one is rounded to 53
  significant binary digits, to the nearest and in a tie to the even one.
\<close>

definition roundToDouble :: "nat \<Rightarrow> nat option" where
  "roundToDouble m =
     (if m < 2 ^ 53 then Some m
      else
        (let e = bitLength m - 53;
             q = m div 2 ^ e;
             r = m mod 2 ^ e;
             d = (if 2 ^ e < 2 * r \<or> (2 * r = 2 ^ e \<and> odd q) then q + 1 else q) * 2 ^ e
         in if d < 2 ^ 1024 then Some d else None))"

text \<open>
  \<open>parseInt(s, 10)\<close>: leading white space is skipped, one sign is read, then the
  longest run of decimal digits; no digit gives NaN. The value of the digits is taken
  exactly before it is rounded to a double (the standard lets an implementation read the
  digits after the twentieth as zeros).
\<close>

definition parseInt :: "jsstring \<Rightarrow> jsnum" where
  "parseInt s =
     (let s1 = dropWhile isWhiteSpace s;
          neg = (case s1 of [] \<Rightarrow> False | c # _ \<Rightarrow> c = 0x2D);
          s2 = (case s1 of [] \<Rightarrow> [] | c # cs \<Rightarrow> if c = 0x2D \<or> c = 0x2B then cs else s1);
          z = takeWhile isDigit s2
      in if z = [] then NaN
         else (case roundToDouble (digitsValue 0 z) of
                 None \<Rightarrow> if neg then MinusInfinity else Infinity
               | Some d \<Rightarrow> Num ((if neg then - 1 else 1) * int d)))"

text \<open>\<open>a || b\<close> for a string \<open>a\<close> that may be null: null and the empty string are falsy.\<close>

definition orElse :: "jsstring option \<Rightarrow> jsstring \<Rightarrow> jsstring" where
  "orElse a b = (case a of None \<Rightarrow> b | Some s \<Rightarrow> if s = [] then b else s)"

section \<open>The DOM\<close>

text \<open>
  The tree that \<open>DOMParser.parseFromString(usx, 'application/xml')\<close> returns; building it
  from the text is the XML parser's work and is not modelled. An element holds its name,
  its attributes and its child nodes. Element names carry no namespace prefix, so
  \<open>nodeName\<close> and the local name a selector matches are the same string.

  The DOM's pointers (\<open>parentElement\<close>, \<open>nextSibling\<close>, \<open>nextElementSibling\<close>) are
  passed explicitly by the functions that follow them: a node comes with the list of its
  following siblings, its parent, and the following siblings of its parent.
\<close>

datatype node =
    TextNode jsstring
  | CDataSection jsstring
  | CommentNode jsstring
  | ProcessingInstruction jsstring jsstring
  | Element jsstring "(jsstring \<times> jsstring) list" "node list"

fun isElement :: "node \<Rightarrow> bool" where
  "isElement (Element _ _ _) = True"
| "isElement _ = False"

fun isTextNode :: "node \<Rightarrow> bool" where
  "isTextNode (TextNode _) = True"
| "isTextNode _ = False"

fun nodeName :: "node \<Rightarrow> jsstring" where
  "nodeName (TextNode _) = ascii ''#text''"
| "nodeName (CDataSection _) = ascii ''#cdata-section''"
| "nodeName (CommentNode _) = ascii ''#comment''"
| "nodeName (ProcessingInstruction target _) = target"
| "nodeName (Element name _ _) = name"

fun childNodes :: "node \<Rightarrow> node list" where
  "childNodes (Element _ _ cs) = cs"
| "childNodes _ = []"

definition children :: "node \<Rightarrow> node list" where
  "children n = filter isElement (childNodes n)"

fun getAttribute :: "node \<Rightarrow> jsstring \<Rightarrow> jsstring option" where
  "getAttribute (Element _ attrs _) name = map_of attrs name"
| "getAttribute _ name = None"

definition hasAttribute :: "node \<Rightarrow> jsstring \<Rightarrow> bool" where
  "hasAttribute n name = (getAttribute n name \<noteq> None)"

text \<open>
  \<open>textContent\<close>: the data of a character-data node; for an element the concatenation
  of the \<open>textContent\<close> of its children, comments and processing instructions left out.
\<close>

fun inTextContent :: "node \<Rightarrow> bool" where
  "inTextContent (CommentNode _) = False"
| "inTextContent (ProcessingInstruction _ _) = False"
| "inTextContent _ = True"

fun textContent :: "node \<Rightarrow> jsstring" where
  "textContent (TextNode s) = s"
| "textContent (CDataSection s) = s"
| "textContent (CommentNode s) = s"
| "textContent (ProcessingInstruction _ s) = s"
| "textContent (Element _ _ cs) =
     concat (map (\<lambda>c. if inTextContent c then textContent c else []) cs)"

text \<open>The descendants of a node in document order, the node itself left out.\<close>

fun descendants :: "node \<Rightarrow> node list" where
  "descendants (Element _ _ cs) = concat (map (\<lambda>c. c # descendants c) cs)"
| "descendants _ = []"

text \<open>\<open>querySelector\<close> and \<open>querySelectorAll\<close> with the selector given as a predicate.\<close>

definition querySelector :: "node \<Rightarrow> (node \<Rightarrow> bool) \<Rightarrow> node option" where
  "querySelector n sel = find sel (descendants n)"

definition querySelectorAll :: "node \<Rightarrow> (node \<Rightarrow> bool) \<Rightarrow> node list" where
  "querySelectorAll n sel = filter sel (descendants n)"

text \<open>The selectors of the source: \<open>book[code]\<close> and \<open>para[style="..."]\<close>.\<close>

definition bookWithCode :: "node \<Rightarrow> bool" where
  "bookWithCode n = (isElement n \<and> nodeName n = ascii ''book'' \<and> hasAttribute n (ascii ''code''))"

definition paraWithStyle :: "jsstring list \<Rightarrow> node \<Rightarrow> bool" where
  "paraWithStyle styles n =
     (isElement n \<and> nodeName n = ascii ''para'' \<and>
      (case getAttribute n (ascii ''style'') of None \<Rightarrow> False | Some s \<Rightarrow> s \<in> set styles))"

section \<open>The parse tree\<close>

text \<open>
  \<open>types.ts\<close> is not among the sources; the shapes are those of the object literals the
  parser builds. An inline item is a plain string, a \<open>Text\<close> object (\<open>text\<close>, optional
  \<open>poem\<close>, \<open>wordsOfJesus\<close> true or absent) or a \<open>FootnoteReference\<close> (\<open>noteId\<close>; the
  poetry wrapper spreads it and adds \<open>poem\<close>).
\<close>

datatype inline =
    Plain jsstring
  | Text jsstring "nat option" bool
  | FootnoteReference nat "nat option"

record Reference =
  ref_chapter :: jsnum
  ref_verse :: jsnum

record Footnote =
  fn_noteId :: nat
  fn_caller :: "jsstring option"
  fn_text :: jsstring
  fn_reference :: Reference

datatype chapter_content =
    Heading "jsstring list"
  | LineBreak
  | HebrewSubtitle "inline list"
  | Verse jsnum "inline list"

record Chapter =
  ch_number :: jsnum
  ch_content :: "chapter_content list"
  ch_footnotes :: "Footnote list"

datatype root_content =
    RootChapter Chapter
  | RootHeading "jsstring list"

record ParseTree =
  pt_id :: jsstring
  pt_header :: "jsstring option"
  pt_title :: "jsstring option"
  pt_content :: "root_content list"

datatype error = MissingBookElement | MissingBookCode

section \<open>Content helpers of \<open>usx-parser.ts\<close>\<close>

text \<open>\<open>trimText\<close>: \<open>text.replace(/\s+/g, ' ')\<close>, every run of white space becomes one space.\<close>

function trimText :: "jsstring \<Rightarrow> jsstring" where
  "trimText [] = []"
| "trimText (c # cs) =
     (if isWhiteSpace c then 0x20 # trimText (dropWhile isWhiteSpace cs) else c # trimText cs)"
  by pat_completeness auto
termination
  by (relation "measure length") (auto simp: less_Suc_eq_le length_dropWhile_le)

text \<open>
  The regular expression \<open>/^[0-9]{1,3}:[0-9]{1,3}/\<close>: the length of its match at the
  start of the string, if it matches. Both groups are greedy: the first must take the whole
  leading run of digits (a colon has to follow it), the second takes up to three digits.
\<close>

definition verseReferenceRegex :: "jsstring \<Rightarrow> nat option" where
  "verseReferenceRegex s =
     (let d1 = takeWhile isDigit s in
      if 1 \<le> length d1 \<and> length d1 \<le> 3 then
        (case drop (length d1) s of
           [] \<Rightarrow> None
         | c # r \<Rightarrow>
             if c = 0x3A \<and> takeWhile isDigit r \<noteq> []
             then Some (length d1 + 1 + min 3 (length (takeWhile isDigit r)))
             else None)
      else None)"

fun isVerseText :: "inline \<Rightarrow> bool" where
  "isVerseText (Text _ _ _) = True"
| "isVerseText _ = False"

fun hasSameFormatting :: "inline \<Rightarrow> inline \<Rightarrow> bool" where
  "hasSameFormatting (Text _ p w) (Text _ p' w') = (p = p' \<and> w = w')"
| "hasSameFormatting _ _ = False"

text \<open>
  \<open>addOrJoin\<close> changes the array in place; the model returns the new array. The objects
  it joins into are the ones the generators have just built, so nothing else refers to them.
\<close>

definition addOrJoin :: "inline list \<Rightarrow> inline \<Rightarrow> inline list" where
  "addOrJoin array v =
     (if array = [] then [v]
      else (case (last array, v) of
              (Plain a, Plain b) \<Rightarrow> butlast array @ [Plain (a @ b)]
            | (Text a p w, Text b p' w') \<Rightarrow>
                if hasSameFormatting (Text a p w) (Text b p' w')
                then butlast array @ [Text (a @ b) p w]
                else array @ [v]
            | _ \<Rightarrow> array @ [v]))"

text \<open>
  \<open>trimContent\<close>: the loop over the indices, where \<open>splice(i, 1)\<close> followed by \<open>i--\<close>
  drops the entry and goes on with the one that took its place.
\<close>

fun trimContent :: "inline list \<Rightarrow> inline list" where
  "trimContent [] = []"
| "trimContent (Plain s # rest) =
     (let s' = trim (trimText s) in
      if s' = [] then trimContent rest else Plain s' # trimContent rest)"
| "trimContent (Text t p w # rest) =
     (let t' = trim (trimText t) in
      if t' = [] then trimContent rest else Text t' p w # trimContent rest)"
| "trimContent (FootnoteReference n p # rest) = FootnoteReference n p # trimContent rest"

definition iterateCharContent :: "node \<Rightarrow> inline list" where
  "iterateCharContent char =
     (let style = getAttribute char (ascii ''style'');
          text = trimText (textContent char)
      in if style = Some (ascii ''wj'') then [Text text None True] else [Plain text])"

definition ignoredParaStyles :: "jsstring list" where
  "ignoredParaStyles = map ascii
     [''ide'', ''rem'', ''h'', ''h1'', ''h2'', ''h3'', ''h4'',
      ''toc1'', ''toc2'', ''toc3'', ''toca1'', ''toca2'', ''toca3'',
      ''imt'', ''imt1'', ''imt2'', ''imt3'', ''imt4'',
      ''is'', ''is1'', ''is2'', ''is3'', ''is4'',
      ''ip'', ''ipi'', ''im'', ''imi'', ''ipq'', ''imq'', ''ipr'',
      ''iq'', ''iq1'', ''iq2'', ''iq3'', ''iq4'',
      ''ib'',
      ''ili'', ''ili1'', ''ili2'', ''ili3'', ''ili4'',
      ''iot'',
      ''io'', ''io1'', ''io2'', ''io3'', ''io4'',
      ''iex'', ''imte'', ''ie'',
      ''mt'', ''mt1'', ''mt2'', ''mt3'', ''mt4'',
      ''mte'', ''mte1'', ''mte2'', ''mte3'', ''mte4'',
      ''cl'', ''cd'', ''r'']"

section \<open>Walking siblings and cousins\<close>

text \<open>
  \<open>nextElementSibling\<close> on a list of following siblings: the nodes before the first
  element, that element, and the nodes after it.
\<close>

fun nextElementSibling :: "node list \<Rightarrow> (node list \<times> node \<times> node list) option" where
  "nextElementSibling [] = None"
| "nextElementSibling (n # ns) =
     (if isElement n then Some ([], n, ns)
      else (case nextElementSibling ns of
              None \<Rightarrow> None
            | Some (between, e, after) \<Rightarrow> Some (n # between, e, after)))"

lemma nextElementSibling_length:
  "nextElementSibling ns = Some (between, e, after) \<Longrightarrow> length after < length ns"
  by (induction ns arbitrary: between) (auto split: if_splits option.splits)

text \<open>
  \<open>iterateSiblingsAndCousins(node)\<close>, the pairs it yields in order. The node is given by
  \<open>siblings\<close> (its \<open>nextSibling\<close> chain), \<open>parent\<close> (its \<open>parentElement\<close>), \<open>grandparent\<close>
  (the parent's \<open>parentElement\<close>) and \<open>uncles\<close> (the parent's \<open>nextSibling\<close> chain). The
  generator has no effect of its own, so the list it would yield if run to its end stands
  for it; a consumer that stops early takes a prefix.
\<close>

function iterateSiblingsAndCousins ::
  "node list \<Rightarrow> node \<Rightarrow> node \<Rightarrow> node list \<Rightarrow> (node \<times> node) list" where
  "iterateSiblingsAndCousins siblings parent grandparent uncles =
     map (\<lambda>sibling. (sibling, parent)) siblings @
     (case nextElementSibling uncles of
        None \<Rightarrow> []
      | Some (between, uncle, uncles') \<Rightarrow>
          map (\<lambda>siblingNode. (siblingNode, grandparent)) between @
          (case childNodes uncle of
             [] \<Rightarrow> []
           | child # siblings' \<Rightarrow>
               (child, uncle) # iterateSiblingsAndCousins siblings' uncle grandparent uncles'))"
  by pat_completeness auto
termination
  by (relation "measure (\<lambda>(siblings, parent, grandparent, uncles). length uncles)")
     (auto dest: nextElementSibling_length)

declare iterateSiblingsAndCousins.simps [simp del]

definition iterateUntilEndingVerse ::
  "node list \<Rightarrow> node \<Rightarrow> node \<Rightarrow> node list \<Rightarrow> (node \<times> node) list" where
  "iterateUntilEndingVerse siblings parent grandparent uncles =
     takeWhile (\<lambda>(node, parent). nodeName node \<noteq> ascii ''verse'')
       (iterateSiblingsAndCousins siblings parent grandparent uncles)"

section \<open>The class \<open>USXParser\<close>\<close>

text \<open>
  The parser's only field that changes is \<open>_noteCounter\<close>, which the constructor sets to
  0 and nothing but \<open>this._noteCounter++\<close> writes. Every method takes the counter and
  returns the new one. A method that is handed the \<open>chapter\<close> object and pushes footnotes
  on it takes the chapter and returns it changed. What a generator yields is returned as
  a list: each generator of the class is run to its end by its consumer, its effects
  happen in the order of the yields, and no consumer reads the counter or the footnotes in
  between.

  The counter is a JavaScript number; \<open>++\<close> is exact below \<open>2 ^ 53\<close>, a value that would
  take as many footnotes to reach, so it is a natural number here.
\<close>

text \<open>\<open>node.getAttribute('caller') || null\<close>.\<close>

definition orNull :: "jsstring option \<Rightarrow> jsstring option" where
  "orNull a = (case a of None \<Rightarrow> None | Some s \<Rightarrow> if s = [] then None else Some s)"

text \<open>
  \<open>iterateNodeTextContent(node, chapter, verse?)\<close>; \<open>verse\<close> is the number of the
  verse, \<open>None\<close> when the argument is left out. \<open>node instanceof Element\<close> is taken to
  hold of the element nodes and of no other node, as it does when the global \<open>Element\<close> is
  that of the window the parser was built with.
\<close>

definition iterateNodeTextContent ::
  "node \<Rightarrow> Chapter \<Rightarrow> jsnum option \<Rightarrow> nat \<Rightarrow> inline list \<times> Chapter \<times> nat" where
  "iterateNodeTextContent node chapter verse noteCounter =
     (if isTextNode node then ([Plain (orElse (Some (textContent node)) [])], chapter, noteCounter)
      else if isElement node \<and> nodeName node = ascii ''char'' then
        (iterateCharContent node, chapter, noteCounter)
      else if isElement node \<and> nodeName node = ascii ''note'' then
        (if getAttribute node (ascii ''style'') = Some (ascii ''f'') then
           (let text0 = trim (trimText (orElse (Some (textContent node)) []));
                text = (case verseReferenceRegex text0 of
                          Some n \<Rightarrow> trim (drop n text0)
                        | None \<Rightarrow> text0);
                note = \<lparr> fn_noteId = noteCounter,
                         fn_caller = orNull (getAttribute node (ascii ''caller'')),
                         fn_text = text,
                         fn_reference = \<lparr> ref_chapter = ch_number chapter,
                                          ref_verse = (case verse of None \<Rightarrow> Num 0 | Some n \<Rightarrow> n) \<rparr> \<rparr>
            in ([FootnoteReference (fn_noteId note) None],
                chapter \<lparr> ch_footnotes := ch_footnotes chapter @ [note] \<rparr>,
                noteCounter + 1))
         else ([], chapter, noteCounter))
      else ([], chapter, noteCounter))"

text \<open>The poetry level that \<open>iterateVerseContent\<close> reads off the parent of a node.\<close>

definition poemOf :: "node \<Rightarrow> nat option" where
  "poemOf parent =
     (if nodeName parent = ascii ''para'' then
        (let style = getAttribute parent (ascii ''style'') in
         if style = Some (ascii ''q1'') then Some 1
         else if style = Some (ascii ''q2'') then Some 2
         else if style = Some (ascii ''q3'') then Some 3
         else if style = Some (ascii ''q4'') then Some 4
         else None)
      else None)"

text \<open>
  What \<open>iterateVerseContent\<close> yields for one item when \<open>poem\<close> is not null: a string
  becomes \<open>{text, poem}\<close>, an object is spread and given \<open>poem\<close>.
\<close>

fun withPoem :: "nat option \<Rightarrow> inline \<Rightarrow> inline" where
  "withPoem None content = content"
| "withPoem (Some poem) (Plain s) = Text s (Some poem) False"
| "withPoem (Some poem) (Text t _ w) = Text t (Some poem) w"
| "withPoem (Some poem) (FootnoteReference n _) = FootnoteReference n (Some poem)"

text \<open>The loop of \<open>iterateVerseContent\<close> over the pairs of \<open>iterateUntilEndingVerse\<close>.\<close>

fun iterateVerseContent_loop ::
  "(node \<times> node) list \<Rightarrow> Chapter \<Rightarrow> jsnum \<Rightarrow> nat \<Rightarrow> inline list \<times> Chapter \<times> nat" where
  "iterateVerseContent_loop [] chapter verse noteCounter = ([], chapter, noteCounter)"
| "iterateVerseContent_loop ((node, parent) # rest) chapter verse noteCounter =
     (if nodeName node = ascii ''verse'' then ([], chapter, noteCounter)
      else
        (let (contents, chapter1, counter1) =
               iterateNodeTextContent node chapter (Some verse) noteCounter;
             (more, chapter2, counter2) = iterateVerseContent_loop rest chapter1 verse counter1
         in (map (withPoem (poemOf parent)) contents @ more, chapter2, counter2)))"

text \<open>
  \<open>iterateVerseContent(element, chapter, verse)\<close>; the verse element is given by its
  place in the tree, as for \<open>iterateSiblingsAndCousins\<close>.
\<close>

definition iterateVerseContent ::
  "node list \<Rightarrow> node \<Rightarrow> node \<Rightarrow> node list \<Rightarrow> Chapter \<Rightarrow> jsnum \<Rightarrow> nat \<Rightarrow>
   inline list \<times> Chapter \<times> nat" where
  "iterateVerseContent siblings parent grandparent uncles chapter verse noteCounter =
     iterateVerseContent_loop (iterateUntilEndingVerse siblings parent grandparent uncles)
       chapter verse noteCounter"

text \<open>\<open>iterateHebrewSubtitleContent\<close>: the loop over \<open>iterateNodes(element)\<close>.\<close>

fun iterateHebrewSubtitleContent_loop ::
  "node list \<Rightarrow> Chapter \<Rightarrow> nat \<Rightarrow> inline list \<times> Chapter \<times> nat" where
  "iterateHebrewSubtitleContent_loop [] chapter noteCounter = ([], chapter, noteCounter)"
| "iterateHebrewSubtitleContent_loop (node # rest) chapter noteCounter =
     (let (contents, chapter1, counter1) = iterateNodeTextContent node chapter None noteCounter;
          (more, chapter2, counter2) = iterateHebrewSubtitleContent_loop rest chapter1 counter1
      in (contents @ more, chapter2, counter2))"

definition iterateHebrewSubtitleContent ::
  "node \<Rightarrow> Chapter \<Rightarrow> nat \<Rightarrow> inline list \<times> Chapter \<times> nat" where
  "iterateHebrewSubtitleContent element chapter noteCounter =
     iterateHebrewSubtitleContent_loop (childNodes element) chapter noteCounter"

definition parseHebrewSubtitle :: "node \<Rightarrow> Chapter \<Rightarrow> nat \<Rightarrow> chapter_content \<times> Chapter \<times> nat" where
  "parseHebrewSubtitle para chapter noteCounter =
     (let (contents, chapter1, counter1) = iterateHebrewSubtitleContent para chapter noteCounter
      in (HebrewSubtitle (trimContent (foldl addOrJoin [] contents)), chapter1, counter1))"

text \<open>
  The loop of \<open>iterateChapterParaVerseContent\<close> over \<open>iterateChildren(para)\<close>. It runs over
  the child nodes and passes the ones that are not elements, so that the rest of the list
  is the \<open>nextSibling\<close> chain of the element at hand. \<open>uncles\<close> is the \<open>nextSibling\<close>
  chain of \<open>para\<close> and \<open>grandparent\<close> its parent.
\<close>

fun iterateChapterParaVerseContent_loop ::
  "node list \<Rightarrow> node \<Rightarrow> node \<Rightarrow> node list \<Rightarrow> Chapter \<Rightarrow> nat \<Rightarrow>
   chapter_content list \<times> Chapter \<times> nat" where
  "iterateChapterParaVerseContent_loop [] para grandparent uncles chapter noteCounter =
     ([], chapter, noteCounter)"
| "iterateChapterParaVerseContent_loop (element # rest) para grandparent uncles chapter noteCounter =
     (if \<not> isElement element then
        iterateChapterParaVerseContent_loop rest para grandparent uncles chapter noteCounter
      else if nodeName element = ascii ''chapter'' then ([], chapter, noteCounter)
      else if nodeName element = ascii ''verse'' then
        (if hasAttribute element (ascii ''eid'') then
           iterateChapterParaVerseContent_loop rest para grandparent uncles chapter noteCounter
         else
           (let number = parseInt (orElse (getAttribute element (ascii ''number'')) (ascii ''0''));
                (contents, chapter1, counter1) =
                  iterateVerseContent rest para grandparent uncles chapter number noteCounter;
                verse = Verse number (trimContent (foldl addOrJoin [] contents));
                (more, chapter2, counter2) =
                  iterateChapterParaVerseContent_loop rest para grandparent uncles chapter1 counter1
            in (verse # more, chapter2, counter2)))
      else iterateChapterParaVerseContent_loop rest para grandparent uncles chapter noteCounter)"

definition iterateChapterParaVerseContent ::
  "node \<Rightarrow> node \<Rightarrow> node list \<Rightarrow> Chapter \<Rightarrow> nat \<Rightarrow> chapter_content list \<times> Chapter \<times> nat" where
  "iterateChapterParaVerseContent para grandparent uncles chapter noteCounter =
     iterateChapterParaVerseContent_loop (childNodes para) para grandparent uncles chapter noteCounter"

text \<open>\<open>para.textContent ? [ para.textContent ] : []\<close>.\<close>

definition headingContent :: "node \<Rightarrow> jsstring list" where
  "headingContent para = (if textContent para \<noteq> [] then [textContent para] else [])"

definition isHeadingStyle :: "jsstring option \<Rightarrow> bool" where
  "isHeadingStyle style =
     (style = Some (ascii ''s1'') \<or> style = Some (ascii ''s2'') \<or>
      style = Some (ascii ''s3'') \<or> style = Some (ascii ''s4''))"

definition iterateChapterParaContent ::
  "node \<Rightarrow> node \<Rightarrow> node list \<Rightarrow> Chapter \<Rightarrow> nat \<Rightarrow> chapter_content list \<times> Chapter \<times> nat" where
  "iterateChapterParaContent para grandparent uncles chapter noteCounter =
     (let style = getAttribute para (ascii ''style'') in
      if isHeadingStyle style then ([Heading (headingContent para)], chapter, noteCounter)
      else if style = Some (ascii ''b'') then ([LineBreak], chapter, noteCounter)
      else if style = Some (ascii ''d'') then
        (let (subtitle, chapter1, counter1) = parseHebrewSubtitle para chapter noteCounter
         in ([subtitle], chapter1, counter1))
      else if orElse style [] = [] \<or> orElse style [] \<notin> set ignoredParaStyles then
        iterateChapterParaVerseContent para grandparent uncles chapter noteCounter
      else ([], chapter, noteCounter))"

text \<open>
  \<open>iterateChapterContent(chapterSiblings, chapter)\<close>. \<open>chapterSiblings\<close> is the iterator
  of \<open>iterateRootContent\<close> itself (behind \<open>uncompletable\<close>, so that the \<open>break\<close> does not
  close it): the elements this loop takes, the \<open>chapter\<close> element it stops at included,
  are gone for the caller. The fourth component of the result is what is left of the
  iterator.
\<close>

fun iterateChapterContent ::
  "node list \<Rightarrow> node \<Rightarrow> Chapter \<Rightarrow> nat \<Rightarrow> chapter_content list \<times> Chapter \<times> nat \<times> node list" where
  "iterateChapterContent [] grandparent chapter noteCounter = ([], chapter, noteCounter, [])"
| "iterateChapterContent (sibling # rest) grandparent chapter noteCounter =
     (if \<not> isElement sibling then iterateChapterContent rest grandparent chapter noteCounter
      else if nodeName sibling = ascii ''para'' then
        (let (contents, chapter1, counter1) =
               iterateChapterParaContent sibling grandparent rest chapter noteCounter;
             (more, chapter2, counter2, left) =
               iterateChapterContent rest grandparent chapter1 counter1
         in (contents @ more, chapter2, counter2, left))
      else if nodeName sibling = ascii ''chapter'' then ([], chapter, noteCounter, rest)
      else iterateChapterContent rest grandparent chapter noteCounter)"

lemma iterateChapterContent_left:
  "iterateChapterContent nodes grandparent ch noteCounter = (contents, ch', counter', left)
   \<Longrightarrow> length left \<le> length nodes"
proof (induction nodes arbitrary: ch noteCounter contents ch' counter')
  case Nil
  then show ?case by simp
next
  case (Cons sibling rest)
  then show ?case
    by (fastforce split: if_splits prod.splits)
qed

text \<open>
  \<open>iterateRootContent(usxElement)\<close>, over the child nodes of \<open>usxElement\<close> that are left
  (the iterator of \<open>iterateChildren\<close> passes the ones that are not elements).
\<close>

function iterateRootContent :: "node list \<Rightarrow> node \<Rightarrow> nat \<Rightarrow> root_content list \<times> nat" where
  "iterateRootContent [] usxElement noteCounter = ([], noteCounter)"
| "iterateRootContent (child # rest) usxElement noteCounter =
     (if \<not> isElement child then iterateRootContent rest usxElement noteCounter
      else if nodeName child = ascii ''chapter'' then
        (if hasAttribute child (ascii ''eid'') then iterateRootContent rest usxElement noteCounter
         else
           (let chapter = \<lparr> ch_number = parseInt (orElse (getAttribute child (ascii ''number'')) (ascii ''0'')),
                            ch_content = [], ch_footnotes = [] \<rparr>;
                (contents, chapter1, counter1, left) =
                  iterateChapterContent rest usxElement chapter noteCounter;
                (more, counter2) = iterateRootContent left usxElement counter1
            in (RootChapter (chapter1 \<lparr> ch_content := contents \<rparr>) # more, counter2)))
      else if nodeName child = ascii ''para'' then
        (if isHeadingStyle (getAttribute child (ascii ''style'')) then
           (let (more, counter2) = iterateRootContent rest usxElement noteCounter
            in (RootHeading (headingContent child) # more, counter2))
         else iterateRootContent rest usxElement noteCounter)
      else iterateRootContent rest usxElement noteCounter)"
  by pat_completeness auto
termination
  by (relation "measure (\<lambda>(nodes, usxElement, noteCounter). length nodes)")
     (auto dest!: iterateChapterContent_left [OF sym])

declare iterateRootContent.simps [simp del]

text \<open>
  \<open>parse(usx)\<close>, from the document element of the parsed text. It throws where the model
  returns an error: \<open>MissingBookElement\<close> is
  \<open>Error('The USX content does not contain a book element.')\<close>, \<open>MissingBookCode\<close> is
  \<open>Error('The book element does not contain a code attribute.')\<close>. The first argument is
  the parser's \<open>_noteCounter\<close> when \<open>parse\<close> is called, 0 for a new parser.
\<close>

definition parse :: "nat \<Rightarrow> node \<Rightarrow> error + (ParseTree \<times> nat)" where
  "parse noteCounter usxElement =
     (case querySelector usxElement bookWithCode of
        None \<Rightarrow> Inl MissingBookElement
      | Some bookElement \<Rightarrow>
          (let bookCode = orElse (getAttribute bookElement (ascii ''code'')) [] in
           if bookCode = [] then Inl MissingBookCode
           else
             (let header = querySelector usxElement (paraWithStyle [ascii ''h'']);
                  titles = querySelectorAll usxElement
                             (paraWithStyle [ascii ''mt1'', ascii ''mt2'', ascii ''mt3'']);
                  (contents, counter1) =
                    iterateRootContent (childNodes usxElement) usxElement noteCounter
              in Inr (\<lparr> pt_id = bookCode,
                        pt_header = map_option (\<lambda>h. orElse (Some (textContent h)) []) header,
                        pt_title =
                          (if length titles > 0
                           then Some (join (ascii '' '')
                                        (filter (\<lambda>t. t \<noteq> []) (map textContent titles)))
                           else None),
                        pt_content = contents \<rparr>,
                      counter1))))"

section \<open>Path normalisation\<close>

text \<open>
  Modelled from the spec: \<open>replaceSpacesWithUnderscores\<close> is defined in \<open>generation/api.ts\<close>,
  which is not among the sources (only its test \<open>api.spec.ts\<close> is). The spec says that it
  "replaces every ASCII space with \<open>_\<close>. No other characters are escaped".
\<close>

definition replaceSpacesWithUnderscores :: "jsstring \<Rightarrow> jsstring" where
  "replaceSpacesWithUnderscores s = map (\<lambda>c. if c = 0x20 then 0x5F else c) s"

section \<open>What the properties speak about\<close>

text \<open>The note ids that an inline sequence refers to, in order.\<close>

fun inlineRefs :: "inline list \<Rightarrow> nat list" where
  "inlineRefs [] = []"
| "inlineRefs (FootnoteReference n _ # rest) = n # inlineRefs rest"
| "inlineRefs (_ # rest) = inlineRefs rest"

text \<open>The note ids referred to in the verses and subtitles of a chapter's content, in order.\<close>

fun contentRefs :: "chapter_content list \<Rightarrow> nat list" where
  "contentRefs [] = []"
| "contentRefs (Verse _ content # rest) = inlineRefs content @ contentRefs rest"
| "contentRefs (HebrewSubtitle content # rest) = inlineRefs content @ contentRefs rest"
| "contentRefs (_ # rest) = contentRefs rest"

fun chapters :: "root_content list \<Rightarrow> Chapter list" where
  "chapters [] = []"
| "chapters (RootChapter ch # rest) = ch # chapters rest"
| "chapters (RootHeading _ # rest) = chapters rest"

definition footnoteIds :: "Chapter \<Rightarrow> nat list" where
  "footnoteIds ch = map fn_noteId (ch_footnotes ch)"

text \<open>
  A run of the parser from chapter \<open>ch\<close> and counter \<open>c\<close> to \<open>ch'\<close> and \<open>c'\<close> that
  yielded references \<open>refs\<close>: the counter did not go down, the references are the numbers
  from \<open>c\<close> up to \<open>c'\<close>, and the chapter changed only by new footnotes at the end of its
  list, which carry these numbers in this order.
\<close>

definition allocates :: "Chapter \<Rightarrow> nat \<Rightarrow> nat list \<Rightarrow> Chapter \<Rightarrow> nat \<Rightarrow> bool" where
  "allocates ch c refs ch' c' =
     (c \<le> c' \<and> refs = [c..<c'] \<and>
      (\<exists>new. ch' = ch \<lparr> ch_footnotes := ch_footnotes ch @ new \<rparr> \<and> map fn_noteId new = [c..<c']))"

section \<open>Documents for the examples\<close>

definition el :: "string \<Rightarrow> (string \<times> string) list \<Rightarrow> node list \<Rightarrow> node" where
  "el name attrs kids = Element (ascii name) (map (\<lambda>(k, v). (ascii k, ascii v)) attrs) kids"

definition tx :: "string \<Rightarrow> node" where
  "tx s = TextNode (ascii s)"

text \<open>
  Two chapters in the USX 3 form, each closed by its \<open>eid\<close> milestone, with one footnote
  in each: \<open><usx><book code="GEN"/><chapter number="1"/><para style="p"><verse number="1"/>
  <note style="f">a</note></para><chapter eid="GEN 1"/><chapter number="2"/><para style="p">
  <verse number="1"/><note style="f">b</note></para></usx>\<close> (without the line breaks).
\<close>

definition doc_two_chapters :: node where
  "doc_two_chapters =
     el ''usx'' []
       [el ''book'' [(''code'', ''GEN'')] [],
        el ''chapter'' [(''number'', ''1'')] [],
        el ''para'' [(''style'', ''p'')]
          [el ''verse'' [(''number'', ''1'')] [], el ''note'' [(''style'', ''f'')] [tx ''a'']],
        el ''chapter'' [(''eid'', ''GEN 1'')] [],
        el ''chapter'' [(''number'', ''2'')] [],
        el ''para'' [(''style'', ''p'')]
          [el ''verse'' [(''number'', ''1'')] [], el ''note'' [(''style'', ''f'')] [tx ''b'']]]"

text \<open>The note ids of the footnotes of each chapter of a parse, chapter by chapter.\<close>

definition parsedFootnoteIds :: "error + ParseTree \<times> nat \<Rightarrow> nat list list" where
  "parsedFootnoteIds r =
     (case r of Inl _ \<Rightarrow> [] | Inr (tree, _) \<Rightarrow> map footnoteIds (chapters (pt_content tree)))"

text \<open>
  C1 as it is stated, of the note ids of each chapter: a counter that is reset at the start
  of each chapter gives every chapter the note ids 0, 1, 2 and so on.
\<close>

definition countedPerChapter :: "nat list list \<Rightarrow> bool" where
  "countedPerChapter idss = list_all (\<lambda>ids. ids = [0..<length ids]) idss"

text \<open>
  A heading before the first chapter, and a paragraph with a verse outside every
  chapter: \<open><usx><book code="GEN"/><para style="s1">The Creation</para><para style="p">
  <verse number="1"/>stray</para></usx>\<close>.
\<close>

definition doc_root_level :: node where
  "doc_root_level =
     el ''usx'' []
       [el ''book'' [(''code'', ''GEN'')] [],
        el ''para'' [(''style'', ''s1'')] [tx ''The Creation''],
        el ''para'' [(''style'', ''p'')] [el ''verse'' [(''number'', ''1'')] [], tx ''stray'']]"

text \<open>\<open><usx><book code=""/><book code="GEN"/></usx>\<close>.\<close>

definition doc_two_books :: node where
  "doc_two_books =
     el ''usx'' [] [el ''book'' [(''code'', [])] [], el ''book'' [(''code'', ''GEN'')] []]"

text \<open>\<open><usx><book code="GEN"/><para style="mt2"/><para style="mt1">Genesis</para></usx>\<close>.\<close>

definition doc_empty_title :: node where
  "doc_empty_title =
     el ''usx'' []
       [el ''book'' [(''code'', ''GEN'')] [],
        el ''para'' [(''style'', ''mt2'')] [],
        el ''para'' [(''style'', ''mt1'')] [tx ''Genesis'']]"

text \<open>
  \<open><usx><book code="GEN"/><para style="h">Genesis</para><para style="mt2">The First Book
  of Moses</para><para style="mt1">Genesis</para></usx>\<close>.
\<close>

definition doc_titles :: node where
  "doc_titles =
     el ''usx'' []
       [el ''book'' [(''code'', ''GEN'')] [],
        el ''para'' [(''style'', ''h'')] [tx ''Genesis''],
        el ''para'' [(''style'', ''mt2'')] [tx ''The First Book of Moses''],
        el ''para'' [(''style'', ''mt1'')] [tx ''Genesis'']]"

text \<open>The styles of the section headings and of the major titles, as lists for \<open>paraWithStyle\<close>.\<close>

definition headingStyles :: "jsstring list" where
  "headingStyles = [ascii ''s1'', ascii ''s2'', ascii ''s3'', ascii ''s4'']"

definition titleStyles :: "jsstring list" where
  "titleStyles = [ascii ''mt1'', ascii ''mt2'', ascii ''mt3'']"

text \<open>
  C6 as it is stated speaks of a document that has a \<open>book\<close> element with a code
  attribute that is not empty, anywhere below the root.
\<close>

definition hasBookWithNonEmptyCode :: "node \<Rightarrow> bool" where
  "hasBookWithNonEmptyCode usx =
     list_ex (\<lambda>n. isElement n \<and> nodeName n = ascii ''book'' \<and>
                   orElse (getAttribute n (ascii ''code'')) [] \<noteq> [])
       (descendants usx)"

text \<open>
  The title as C7 states it: the text contents of all \<open>mt1\<close>, \<open>mt2\<close>, \<open>mt3\<close> paragraphs
  in document order, joined by one space; none when there is no such paragraph.
\<close>

definition claimedTitle :: "node \<Rightarrow> jsstring option" where
  "claimedTitle usx =
     (let titles = filter (paraWithStyle titleStyles) (descendants usx)
      in if titles = [] then None else Some (join (ascii '' '') (map textContent titles)))"

definition parsedTitle :: "error + ParseTree \<times> nat \<Rightarrow> jsstring option" where
  "parsedTitle r = (case r of Inl _ \<Rightarrow> None | Inr (tree, _) \<Rightarrow> pt_title tree)"

text \<open>The content of each chapter of a parse, chapter by chapter.\<close>

definition parsedContent :: "error + ParseTree \<times> nat \<Rightarrow> chapter_content list list" where
  "parsedContent r =
     (case r of Inl _ \<Rightarrow> [] | Inr (tree, _) \<Rightarrow> map ch_content (chapters (pt_content tree)))"

text \<open>\<open><para style="q2"><char style="wj">blessed</char> are the poor</para>\<close>.\<close>

definition para_q2 :: node where
  "para_q2 =
     el ''para'' [(''style'', ''q2'')]
       [el ''char'' [(''style'', ''wj'')] [tx ''blessed''], tx '' are the poor'']"

text \<open>
  The paragraph of C4 under a verse that the paragraph before it has opened:
  \<open><usx><book code="MAT"/><chapter number="5"/><para style="p"><verse number="3"/></para>
  <para style="q2"><char style="wj">blessed</char> are the poor</para></usx>\<close>.
\<close>

definition doc_poetry :: node where
  "doc_poetry =
     el ''usx'' []
       [el ''book'' [(''code'', ''MAT'')] [],
        el ''chapter'' [(''number'', ''5'')] [],
        el ''para'' [(''style'', ''p'')] [el ''verse'' [(''number'', ''3'')] []],
        para_q2]"

text \<open>The same with the verse milestone inside the \<open>q2\<close> paragraph.\<close>

definition doc_poetry_inside :: node where
  "doc_poetry_inside =
     el ''usx'' []
       [el ''book'' [(''code'', ''MAT'')] [],
        el ''chapter'' [(''number'', ''5'')] [],
        el ''para'' [(''style'', ''q2'')]
          [el ''verse'' [(''number'', ''3'')] [],
           el ''char'' [(''style'', ''wj'')] [tx ''blessed''], tx '' are the poor'']]"

text \<open>
  \<open><usx><book code="MAT"/><chapter number="7"/><para style="p"><verse number="7"/>
  <char style="wj">Ask</char> <char style="wj">Seek</char><verse number="8"/>abc<char
  style="wj"> </char>def</para></usx>\<close>: two spans of words of Jesus with a space between
  them, and two strings with a span between them that holds only a space.
\<close>

definition doc_adjacent :: node where
  "doc_adjacent =
     el ''usx'' []
       [el ''book'' [(''code'', ''MAT'')] [],
        el ''chapter'' [(''number'', ''7'')] [],
        el ''para'' [(''style'', ''p'')]
          [el ''verse'' [(''number'', ''7'')] [],
           el ''char'' [(''style'', ''wj'')] [tx ''Ask''], tx '' '',
           el ''char'' [(''style'', ''wj'')] [tx ''Seek''],
           el ''verse'' [(''number'', ''8'')] [],
           tx ''abc'', el ''char'' [(''style'', ''wj'')] [tx '' ''], tx ''def'']]"

text \<open>
  The verse milestones of a document, read off the tree without running the parser. A
  start milestone is an element of the given name without \<open>eid\<close>; its number is what
  \<open>parseInt\<close> makes of its \<open>number\<close> attribute, \<open>'0'\<close> standing in for a missing or empty
  one. \<open>paraVerseNumbers\<close> are the numbers of the verse start milestones among the children
  of a paragraph, in document order, up to a \<open>chapter\<close> element; \<open>carriesVerses\<close> says
  that a paragraph is neither a heading, a break or a subtitle nor of an ignored style;
  \<open>chapterVerseNumbers\<close> are the numbers of the verse start milestones in the paragraphs
  that follow a chapter's start milestone, up to the next \<open>chapter\<close> element.
\<close>

fun verseNumbers :: "chapter_content list \<Rightarrow> jsnum list" where
  "verseNumbers [] = []"
| "verseNumbers (Verse n _ # rest) = n # verseNumbers rest"
| "verseNumbers (_ # rest) = verseNumbers rest"

definition milestoneNumber :: "node \<Rightarrow> jsnum" where
  "milestoneNumber e = parseInt (orElse (getAttribute e (ascii ''number'')) (ascii ''0''))"

definition isStartMilestone :: "jsstring \<Rightarrow> node \<Rightarrow> bool" where
  "isStartMilestone name e = (isElement e \<and> nodeName e = name \<and> \<not> hasAttribute e (ascii ''eid''))"

fun paraVerseNumbers :: "node list \<Rightarrow> jsnum list" where
  "paraVerseNumbers [] = []"
| "paraVerseNumbers (e # rest) =
     (if isElement e \<and> nodeName e = ascii ''chapter'' then []
      else if isStartMilestone (ascii ''verse'') e then milestoneNumber e # paraVerseNumbers rest
      else paraVerseNumbers rest)"

definition carriesVerses :: "node \<Rightarrow> bool" where
  "carriesVerses para =
     (let style = getAttribute para (ascii ''style'') in
      \<not> isHeadingStyle style \<and> style \<noteq> Some (ascii ''b'') \<and> style \<noteq> Some (ascii ''d'') \<and>
      (style = None \<or> style = Some [] \<or> the style \<notin> set ignoredParaStyles))"

fun chapterVerseNumbers :: "node list \<Rightarrow> jsnum list" where
  "chapterVerseNumbers [] = []"
| "chapterVerseNumbers (n # rest) =
     (if isElement n \<and> nodeName n = ascii ''chapter'' then []
      else if isElement n \<and> nodeName n = ascii ''para'' \<and> carriesVerses n
      then paraVerseNumbers (childNodes n) @ chapterVerseNumbers rest
      else chapterVerseNumbers rest)"

text \<open>
  C3 as it is stated: every verse number of a chapter's content is at least 1, and the
  numbers increase strictly in the order of the content.
\<close>

definition versesIncreasingFromOne :: "chapter_content list \<Rightarrow> bool" where
  "versesIncreasingFromOne content =
     (list_all (\<lambda>n. jsGreaterEq n (Num 1)) (verseNumbers content)
      \<and> sorted_wrt jsLess (verseNumbers content))"

text \<open>
  \<open><usx><book code="GEN"/><chapter number="1"/><para style="p"><verse number="2"/>two
  <verse number="1"/>one<verse/>none</para></usx>\<close> (without the line break).
\<close>

definition doc_verse_order :: node where
  "doc_verse_order =
     el ''usx'' []
       [el ''book'' [(''code'', ''GEN'')] [],
        el ''chapter'' [(''number'', ''1'')] [],
        el ''para'' [(''style'', ''p'')]
          [el ''verse'' [(''number'', ''2'')] [], tx ''two'',
           el ''verse'' [(''number'', ''1'')] [], tx ''one'',
           el ''verse'' [] [], tx ''none'']]"


text \<open>A string in which every white space character is a space that no white space follows.\<close>

fun collapsed :: "jsstring \<Rightarrow> bool" where
  "collapsed [] = True"
| "collapsed (c # cs) =
     ((if isWhiteSpace c then c = 0x20 \<and> (cs = [] \<or> \<not> isWhiteSpace (hd cs)) else True)
      \<and> collapsed cs)"


text \<open>
  Two entries that \<open>addOrJoin\<close> would join: two strings, or two text objects with the same
  poetry level and the same \<open>wordsOfJesus\<close>. A sequence is coalesced when no two adjacent
  entries are such. An entry is trimmed when it is a footnote reference, or its string is
  collapsed, not empty, and neither starts nor ends with white space.
\<close>

fun joinable :: "inline \<Rightarrow> inline \<Rightarrow> bool" where
  "joinable (Plain _) (Plain _) = True"
| "joinable (Text _ p w) (Text _ p' w') = (p = p' \<and> w = w')"
| "joinable _ _ = False"

fun coalesced :: "inline list \<Rightarrow> bool" where
  "coalesced (x # y # rest) = (\<not> joinable x y \<and> coalesced (y # rest))"
| "coalesced _ = True"

definition trimmedString :: "jsstring \<Rightarrow> bool" where
  "trimmedString s = (s \<noteq> [] \<and> \<not> isWhiteSpace (hd s) \<and> \<not> isWhiteSpace (last s) \<and> collapsed s)"

text \<open>C2 as it is stated, of one item of a chapter's content.\<close>

fun contentCoalesced :: "chapter_content \<Rightarrow> bool" where
  "contentCoalesced (Verse _ content) = coalesced content"
| "contentCoalesced (HebrewSubtitle content) = coalesced content"
| "contentCoalesced _ = True"

fun trimmedEntry :: "inline \<Rightarrow> bool" where
  "trimmedEntry (Plain s) = trimmedString s"
| "trimmedEntry (Text t _ _) = trimmedString t"
| "trimmedEntry (FootnoteReference _ _) = True"

text \<open>
  The words of a string: its maximal runs of characters that are not white space, in
  order. \<open>normalizeSpace\<close> joins them with single spaces; this is the string with every
  run of white space collapsed to one space and without white space at either end, said
  without \<open>trimText\<close> and \<open>trim\<close>. \<open>trimEnd\<close> removes the white space at the end of a
  string.
\<close>

function wordsOf :: "jsstring \<Rightarrow> jsstring list" where
  "wordsOf s =
     (let t = dropWhile isWhiteSpace s in
      if t = [] then []
      else takeWhile (\<lambda>c. \<not> isWhiteSpace c) t # wordsOf (dropWhile (\<lambda>c. \<not> isWhiteSpace c) t))"
  by pat_completeness auto
termination
proof (relation "measure length")
  show "wf (measure length)" by simp
next
  fix s t :: jsstring
  assume t: "t = dropWhile isWhiteSpace s" "t \<noteq> []"
  from t(2) obtain c cs where c: "t = c # cs" by (cases t) auto
  from t c have "\<not> isWhiteSpace c"
    by (metis hd_dropWhile list.sel(1))
  with c have "dropWhile (\<lambda>c. \<not> isWhiteSpace c) t = dropWhile (\<lambda>c. \<not> isWhiteSpace c) cs"
    by simp
  moreover have "length (dropWhile (\<lambda>c. \<not> isWhiteSpace c) cs) \<le> length cs"
    by (rule length_dropWhile_le)
  moreover have "length t \<le> length s"
    using t(1) by (simp add: length_dropWhile_le)
  ultimately show "(dropWhile (\<lambda>c. \<not> isWhiteSpace c) t, s) \<in> measure length"
    using c by simp
qed

declare wordsOf.simps [simp del]

definition normalizeSpace :: "jsstring \<Rightarrow> jsstring" where
  "normalizeSpace s = join [0x20] (wordsOf s)"


text \<open>
  \<open>matchesVerseReference\<close> decides whether a whole string has the form
  \<open>[0-9]{1,3}:[0-9]{1,3}\<close>, by cutting it at its first colon. \<open>leadingVerseReference\<close> is
  the length of the longest prefix of a string that has this form, if there is one (such
  a prefix has three to seven characters).
\<close>

definition matchesVerseReference :: "jsstring \<Rightarrow> bool" where
  "matchesVerseReference m =
     (let a = takeWhile (\<lambda>c. c \<noteq> 0x3A) m;
          b = drop (length a + 1) m
      in length a < length m
         \<and> a \<noteq> [] \<and> length a \<le> 3 \<and> list_all isDigit a
         \<and> b \<noteq> [] \<and> length b \<le> 3 \<and> list_all isDigit b)"

definition leadingVerseReference :: "jsstring \<Rightarrow> nat option" where
  "leadingVerseReference t =
     find (\<lambda>k. k \<le> length t \<and> matchesVerseReference (take k t)) [7, 6, 5, 4, 3]"

text \<open>
  The text of a footnote as C5 describes it, from the text content of the note: runs of
  white space collapsed and the ends trimmed, a leading reference removed, and what is
  left trimmed.
\<close>

definition noteText :: "jsstring \<Rightarrow> jsstring" where
  "noteText content =
     (let t = normalizeSpace content in
      case leadingVerseReference t of
        None \<Rightarrow> t
      | Some k \<Rightarrow> trim (drop k t))"

text \<open>
  The \<open>note\<close> elements of style \<open>f\<close>, and the footnote that C5 describes for one of them,
  given the chapter's number, the verse's number and the note id. \<open>footnotesOf\<close> are the
  footnotes of the notes of style \<open>f\<close> among a list of nodes, one for each, in the order of
  the nodes, with consecutive note ids from the given one. \<open>addFootnotes\<close> puts footnotes
  at the end of a chapter's footnotes.
\<close>

definition isFootnote :: "node \<Rightarrow> bool" where
  "isFootnote n =
     (isElement n \<and> nodeName n = ascii ''note''
      \<and> getAttribute n (ascii ''style'') = Some (ascii ''f''))"

definition footnoteOf :: "node \<Rightarrow> jsnum \<Rightarrow> jsnum \<Rightarrow> nat \<Rightarrow> Footnote" where
  "footnoteOf n chapterNumber verseNumber noteId =
     \<lparr> fn_noteId = noteId,
       fn_caller = (case getAttribute n (ascii ''caller'') of
                      None \<Rightarrow> None
                    | Some s \<Rightarrow> if s = [] then None else Some s),
       fn_text = noteText (textContent n),
       fn_reference = \<lparr> ref_chapter = chapterNumber, ref_verse = verseNumber \<rparr> \<rparr>"


definition addFootnotes :: "Chapter \<Rightarrow> Footnote list \<Rightarrow> Chapter" where
  "addFootnotes ch notes = ch \<lparr> ch_footnotes := ch_footnotes ch @ notes \<rparr>"






text \<open>
  The chapters that a document opens, read off the child nodes of the root element
  without running the parser. \<open>afterChapter\<close> is what is left of a list of nodes after its
  first \<open>chapter\<close> element, whatever the attributes of that element. \<open>openedChapters\<close>
  pairs every chapter start milestone that opens a chapter with the nodes that follow it:
  after a start milestone, the nodes up to the next \<open>chapter\<close> element belong to the
  chapter, and that next \<open>chapter\<close> element is passed over, start milestone or not.
  \<open>numbersOf\<close> are the number of a parsed chapter and the numbers of its verses,
  \<open>milestoneNumbers\<close> the same as the milestones of the document give them.
\<close>

fun afterChapter :: "node list \<Rightarrow> node list" where
  "afterChapter [] = []"
| "afterChapter (n # rest) =
     (if isElement n \<and> nodeName n = ascii ''chapter'' then rest else afterChapter rest)"

lemma afterChapter_length: "length (afterChapter nodes) \<le> length nodes"
  by (induction nodes) auto

function openedChapters :: "node list \<Rightarrow> (node \<times> node list) list" where
  "openedChapters [] = []"
| "openedChapters (n # rest) =
     (if isStartMilestone (ascii ''chapter'') n
      then (n, rest) # openedChapters (afterChapter rest)
      else openedChapters rest)"
  by pat_completeness auto
termination
  by (relation "measure length") (auto simp: less_Suc_eq_le afterChapter_length)

declare openedChapters.simps [simp del]

definition numbersOf :: "Chapter \<Rightarrow> jsnum \<times> jsnum list" where
  "numbersOf ch = (ch_number ch, verseNumbers (ch_content ch))"

definition milestoneNumbers :: "node \<times> node list \<Rightarrow> jsnum \<times> jsnum list" where
  "milestoneNumbers opened = (milestoneNumber (fst opened), chapterVerseNumbers (snd opened))"

definition parsedNumbers :: "error + ParseTree \<times> nat \<Rightarrow> (jsnum \<times> jsnum list) list" where
  "parsedNumbers r =
     (case r of Inl _ \<Rightarrow> [] | Inr (tree, _) \<Rightarrow> map numbersOf (chapters (pt_content tree)))"

text \<open>
  A second chapter and its verse, both without a number, after a first chapter that no
  \<open>eid\<close> milestone closes: \<open><usx><book code="GEN"/><chapter number="1"/><para style="p">
  <verse number="1"/>one</para><chapter/><para style="p"><verse/>two</para></usx>\<close>. And
  a document whose only chapter and verse have no number: \<open><usx><book code="GEN"/>
  <chapter/><para style="p"><verse/>In the beginning</para></usx>\<close>.
\<close>

definition doc_swallowed :: node where
  "doc_swallowed =
     el ''usx'' []
       [el ''book'' [(''code'', ''GEN'')] [],
        el ''chapter'' [(''number'', ''1'')] [],
        el ''para'' [(''style'', ''p'')] [el ''verse'' [(''number'', ''1'')] [], tx ''one''],
        el ''chapter'' [] [],
        el ''para'' [(''style'', ''p'')] [el ''verse'' [] [], tx ''two'']]"

definition doc_no_numbers :: node where
  "doc_no_numbers =
     el ''usx'' []
       [el ''book'' [(''code'', ''GEN'')] [],
        el ''chapter'' [] [],
        el ''para'' [(''style'', ''p'')] [el ''verse'' [] [], tx ''In the beginning'']]"

section \<open>Properties\<close>

text \<open>The equations that evaluate the parser on a document that is written out.\<close>

lemmas evals = el_def tx_def parse_def ascii_def
  querySelector_def querySelectorAll_def bookWithCode_def paraWithStyle_def hasAttribute_def
  orElse_def orNull_def iterateRootContent.simps iterateSiblingsAndCousins.simps
  iterateUntilEndingVerse_def iterateVerseContent_def iterateChapterParaVerseContent_def
  iterateChapterParaContent_def isHeadingStyle_def headingContent_def parseHebrewSubtitle_def
  iterateHebrewSubtitleContent_def iterateNodeTextContent_def iterateCharContent_def
  poemOf_def addOrJoin_def trim_def isWhiteSpace_def isDigit_def parseInt_def roundToDouble_def
  verseReferenceRegex_def ignoredParaStyles_def footnoteIds_def Let_def

subsection \<open>Path normalisation\<close>

lemma replaceSpacesWithUnderscores_tests:
  "replaceSpacesWithUnderscores (ascii ''Hello World'') = ascii ''Hello_World''"
  "replaceSpacesWithUnderscores (ascii ''Hello World 2'') = ascii ''Hello_World_2''"
  by (simp_all add: replaceSpacesWithUnderscores_def ascii_def)

text \<open>
  C8. \<open>replaceSpacesWithUnderscores\<close> keeps the length of its input, puts an underscore
  at every position that holds a space and leaves every other position as it is; so its
  output holds no space, and applying it twice is applying it once.
\<close>

theorem replaceSpacesWithUnderscores_spec:
  "length (replaceSpacesWithUnderscores s) = length s
   \<and> map (\<lambda>i. replaceSpacesWithUnderscores s ! i) [0..<length s]
       = map (\<lambda>i. if s ! i = 0x20 then 0x5F else s ! i) [0..<length s]
   \<and> 0x20 \<notin> set (replaceSpacesWithUnderscores s)
   \<and> replaceSpacesWithUnderscores (replaceSpacesWithUnderscores s)
       = replaceSpacesWithUnderscores s"
  by (auto simp: replaceSpacesWithUnderscores_def)

subsection \<open>Footnote numbering\<close>

lemma allocates_refl: "allocates ch c [] ch c"
  by (simp add: allocates_def)

lemma upt_append: "c \<le> c1 \<Longrightarrow> c1 \<le> c2 \<Longrightarrow> [c..<c1] @ [c1..<c2] = [c..<(c2::nat)]"
  by (metis le_Suc_ex upt_add_eq_append)

lemma allocates_trans:
  assumes "allocates ch c r1 ch1 c1" "allocates ch1 c1 r2 ch2 c2"
  shows "allocates ch c (r1 @ r2) ch2 c2"
proof -
  from assms(1) obtain new1 where 1: "c \<le> c1" "r1 = [c..<c1]"
    "ch1 = ch \<lparr> ch_footnotes := ch_footnotes ch @ new1 \<rparr>" "map fn_noteId new1 = [c..<c1]"
    by (auto simp: allocates_def)
  from assms(2) obtain new2 where 2: "c1 \<le> c2" "r2 = [c1..<c2]"
    "ch2 = ch1 \<lparr> ch_footnotes := ch_footnotes ch1 @ new2 \<rparr>" "map fn_noteId new2 = [c1..<c2]"
    by (auto simp: allocates_def)
  have "ch2 = ch \<lparr> ch_footnotes := ch_footnotes ch @ (new1 @ new2) \<rparr>"
    using 1(3) 2(3) by simp
  moreover have "map fn_noteId (new1 @ new2) = [c..<c2]"
    using 1 2 by (simp add: upt_append)
  moreover have "r1 @ r2 = [c..<c2]"
    using 1 2 by (simp add: upt_append)
  ultimately show ?thesis
    using 1(1) 2(1) unfolding allocates_def by (intro conjI exI[of _ "new1 @ new2"]) auto
qed

lemma inlineRefs_append: "inlineRefs (xs @ ys) = inlineRefs xs @ inlineRefs ys"
  by (induction xs rule: inlineRefs.induct) auto

lemma contentRefs_append: "contentRefs (xs @ ys) = contentRefs xs @ contentRefs ys"
  by (induction xs rule: contentRefs.induct) auto

lemma inlineRefs_withPoem: "inlineRefs (map (withPoem p) xs) = inlineRefs xs"
proof (induction xs)
  case Nil
  then show ?case by simp
next
  case (Cons x xs)
  then show ?case by (cases p; cases x) auto
qed

lemma inlineRefs_trimContent: "inlineRefs (trimContent xs) = inlineRefs xs"
  by (induction xs rule: trimContent.induct) (auto simp: Let_def)

lemma inlineRefs_addOrJoin: "inlineRefs (addOrJoin xs v) = inlineRefs (xs @ [v])"
proof (cases xs rule: rev_cases)
  case Nil
  then show ?thesis by (simp add: addOrJoin_def)
next
  case (snoc ys y)
  then show ?thesis
    by (cases y; cases v) (auto simp: addOrJoin_def inlineRefs_append)
qed

lemma inlineRefs_Cons: "inlineRefs (x # xs) = inlineRefs [x] @ inlineRefs xs"
  by (cases x) auto

lemma inlineRefs_foldl_addOrJoin:
  "inlineRefs (foldl addOrJoin acc xs) = inlineRefs acc @ inlineRefs xs"
proof (induction xs arbitrary: acc)
  case Nil
  then show ?case by simp
next
  case (Cons x xs)
  then show ?case
    using inlineRefs_Cons [of x xs] by (simp add: inlineRefs_addOrJoin inlineRefs_append)
qed

lemma inlineRefs_content:
  "inlineRefs (trimContent (foldl addOrJoin [] xs)) = inlineRefs xs"
  by (simp add: inlineRefs_trimContent inlineRefs_foldl_addOrJoin)

lemma inlineRefs_iterateCharContent: "inlineRefs (iterateCharContent n) = []"
  by (simp add: iterateCharContent_def Let_def)

lemma iterateNodeTextContent_allocates:
  "iterateNodeTextContent node ch verse c = (items, ch', c') \<Longrightarrow>
   allocates ch c (inlineRefs items) ch' c'"
  by (auto simp: iterateNodeTextContent_def allocates_def Let_def inlineRefs_iterateCharContent
           split: if_splits)

lemma iterateVerseContent_loop_allocates:
  "iterateVerseContent_loop pairs ch verse c = (items, ch', c') \<Longrightarrow>
   allocates ch c (inlineRefs items) ch' c'"
proof (induction pairs arbitrary: ch c items ch' c')
  case Nil
  then show ?case by (simp add: allocates_refl)
next
  case (Cons pair pairs)
  obtain node parent where pair: "pair = (node, parent)" by (cases pair)
  show ?case
  proof (cases "nodeName node = ascii ''verse''")
    case True
    with Cons.prems pair show ?thesis by (simp add: allocates_refl)
  next
    case False
    obtain contents ch1 c1 where 1: "iterateNodeTextContent node ch (Some verse) c = (contents, ch1, c1)"
      by (cases "iterateNodeTextContent node ch (Some verse) c") auto
    obtain more ch2 c2 where 2: "iterateVerseContent_loop pairs ch1 verse c1 = (more, ch2, c2)"
      by (cases "iterateVerseContent_loop pairs ch1 verse c1") auto
    from Cons.prems pair False 1 2
    have eq: "items = map (withPoem (poemOf parent)) contents @ more" "ch' = ch2" "c' = c2"
      by auto
    from allocates_trans [OF iterateNodeTextContent_allocates [OF 1] Cons.IH [OF 2]]
    show ?thesis by (simp add: eq inlineRefs_append inlineRefs_withPoem)
  qed
qed


lemma iterateHebrewSubtitleContent_loop_allocates:
  "iterateHebrewSubtitleContent_loop nodes ch c = (items, ch', c') \<Longrightarrow>
   allocates ch c (inlineRefs items) ch' c'"
proof (induction nodes arbitrary: ch c items ch' c')
  case Nil
  then show ?case by (simp add: allocates_refl)
next
  case (Cons node nodes)
  obtain contents ch1 c1 where 1: "iterateNodeTextContent node ch None c = (contents, ch1, c1)"
    by (cases "iterateNodeTextContent node ch None c") auto
  obtain more ch2 c2 where 2: "iterateHebrewSubtitleContent_loop nodes ch1 c1 = (more, ch2, c2)"
    by (cases "iterateHebrewSubtitleContent_loop nodes ch1 c1") auto
  from Cons.prems 1 2 have eq: "items = contents @ more" "ch' = ch2" "c' = c2"
    by auto
  from allocates_trans [OF iterateNodeTextContent_allocates [OF 1] Cons.IH [OF 2]]
  show ?case by (simp add: eq inlineRefs_append)
qed

lemma parseHebrewSubtitle_allocates:
  "parseHebrewSubtitle para ch c = (subtitle, ch', c') \<Longrightarrow>
   allocates ch c (contentRefs [subtitle]) ch' c'"
  by (auto simp: parseHebrewSubtitle_def iterateHebrewSubtitleContent_def inlineRefs_content
           split: prod.splits dest: iterateHebrewSubtitleContent_loop_allocates)

lemma iterateChapterParaVerseContent_loop_allocates:
  "iterateChapterParaVerseContent_loop nodes para gp uncles ch c = (items, ch', c') \<Longrightarrow>
   allocates ch c (contentRefs items) ch' c'"
proof (induction nodes arbitrary: ch c items ch' c')
  case Nil
  then show ?case by (simp add: allocates_refl)
next
  case (Cons element rest)
  let ?number = "parseInt (orElse (getAttribute element (ascii ''number'')) (ascii ''0''))"
  show ?case
  proof (cases "isElement element \<and> nodeName element \<noteq> ascii ''chapter'' \<and>
                nodeName element = ascii ''verse'' \<and> \<not> hasAttribute element (ascii ''eid'')")
    case True
    obtain contents ch1 c1 where
      1: "iterateVerseContent rest para gp uncles ch ?number c = (contents, ch1, c1)"
      by (cases "iterateVerseContent rest para gp uncles ch ?number c") auto
    obtain more ch2 c2 where
      2: "iterateChapterParaVerseContent_loop rest para gp uncles ch1 c1 = (more, ch2, c2)"
      by (cases "iterateChapterParaVerseContent_loop rest para gp uncles ch1 c1") auto
    from Cons.prems True 1 2
    have eq: "items = Verse ?number (trimContent (foldl addOrJoin [] contents)) # more"
      "ch' = ch2" "c' = c2"
      by (auto simp: Let_def)
    from 1 have "allocates ch c (inlineRefs contents) ch1 c1"
      by (simp add: iterateVerseContent_def iterateVerseContent_loop_allocates)
    from allocates_trans [OF this Cons.IH [OF 2]]
    show ?thesis by (simp add: eq inlineRefs_content)
  next
    case False
    with Cons show ?thesis
      by (auto simp: allocates_refl split: if_splits)
  qed
qed

lemma iterateChapterParaContent_allocates:
  "iterateChapterParaContent para gp uncles ch c = (items, ch', c') \<Longrightarrow>
   allocates ch c (contentRefs items) ch' c'"
  by (auto simp: iterateChapterParaContent_def Let_def allocates_refl iterateChapterParaVerseContent_def
           split: if_splits prod.splits
           dest: parseHebrewSubtitle_allocates iterateChapterParaVerseContent_loop_allocates)

lemma iterateChapterContent_allocates:
  "iterateChapterContent nodes gp ch c = (items, ch', c', left) \<Longrightarrow>
   allocates ch c (contentRefs items) ch' c'"
proof (induction nodes arbitrary: ch c items ch' c')
  case Nil
  then show ?case by (simp add: allocates_refl)
next
  case (Cons sibling rest)
  show ?case
  proof (cases "isElement sibling \<and> nodeName sibling = ascii ''para''")
    case True
    obtain contents ch1 c1 where
      1: "iterateChapterParaContent sibling gp rest ch c = (contents, ch1, c1)"
      by (cases "iterateChapterParaContent sibling gp rest ch c") auto
    obtain more ch2 c2 left2 where
      2: "iterateChapterContent rest gp ch1 c1 = (more, ch2, c2, left2)"
      by (cases "iterateChapterContent rest gp ch1 c1") auto
    from Cons.prems True 1 2 have eq: "items = contents @ more" "ch' = ch2" "c' = c2" "left = left2"
      by auto
    from allocates_trans [OF iterateChapterParaContent_allocates [OF 1] Cons.IH [OF 2 [folded eq(4)]]]
    show ?thesis by (simp add: eq contentRefs_append)
  next
    case False
    with Cons show ?thesis
      by (auto simp: allocates_refl split: if_splits)
  qed
qed




lemma footnoteIds_content: "footnoteIds (ch \<lparr> ch_content := contents \<rparr>) = footnoteIds ch"
  by (simp add: footnoteIds_def)

lemma iterateRootContent_noteIds:
  "iterateRootContent nodes usx c = (items, c') \<Longrightarrow>
   c \<le> c' \<and> concat (map footnoteIds (chapters items)) = [c..<c'] \<and>
   (\<forall>ch \<in> set (chapters items). contentRefs (ch_content ch) = footnoteIds ch)"
proof (induction nodes usx c arbitrary: items c' rule: iterateRootContent.induct)
  case (1 usx c)
  then show ?case by (simp add: iterateRootContent.simps)
next
  case (2 child rest usx c)
  let ?chapter = "\<lparr> ch_number = parseInt (orElse (getAttribute child (ascii ''number'')) (ascii ''0'')),
                     ch_content = [], ch_footnotes = [] \<rparr>"
  show ?case
  proof (cases "isElement child \<and> nodeName child = ascii ''chapter'' \<and>
                \<not> hasAttribute child (ascii ''eid'')")
    case True
    obtain contents ch1 c1 left where
      1: "iterateChapterContent rest usx ?chapter c = (contents, ch1, c1, left)"
      by (cases "iterateChapterContent rest usx ?chapter c") auto
    obtain more c2 where 2: "iterateRootContent left usx c1 = (more, c2)"
      by (cases "iterateRootContent left usx c1") auto
    from "2.prems" True 1 2
    have eq: "items = RootChapter (ch1 \<lparr> ch_content := contents \<rparr>) # more" "c' = c2"
      by (auto simp: iterateRootContent.simps(2))
    from iterateChapterContent_allocates [OF 1]
    have a: "c \<le> c1" "contentRefs contents = [c..<c1]" "footnoteIds ch1 = [c..<c1]"
      by (auto simp: allocates_def footnoteIds_def)
    from True have "\<not> \<not> isElement child" "nodeName child = ascii ''chapter''"
      "\<not> hasAttribute child (ascii ''eid'')" by auto
    from "2.IH"(3) [OF this refl refl 1 [symmetric] refl refl 2]
    have ih: "c1 \<le> c2" "concat (map footnoteIds (chapters more)) = [c1..<c2]"
      "\<forall>ch \<in> set (chapters more). contentRefs (ch_content ch) = footnoteIds ch"
      by auto
    show ?thesis
      using a ih by (simp add: eq footnoteIds_content upt_append)
  next
    case False
    with "2.prems" "2.IH" show ?thesis
      by (auto simp: iterateRootContent.simps(2) Let_def split: if_splits prod.splits)
  qed
qed


lemma filter_noteId_one:
  "distinct (map fn_noteId fs) \<Longrightarrow> r \<in> set (map fn_noteId fs) \<Longrightarrow>
   length (filter (\<lambda>f. fn_noteId f = r) fs) = 1"
proof (induction fs)
  case Nil
  then show ?case by simp
next
  case (Cons f fs)
  show ?case
  proof (cases "fn_noteId f = r")
    case True
    from Cons.prems(1) True have "r \<notin> set (map fn_noteId fs)"
      by simp
    then have "filter (\<lambda>f. fn_noteId f = r) fs = []"
      by (induction fs) auto
    with True show ?thesis by simp
  next
    case False
    with Cons show ?thesis by auto
  qed
qed

lemma distinct_concat_member: "distinct (concat xss) \<Longrightarrow> xs \<in> set xss \<Longrightarrow> distinct xs"
  by (induction xss) auto

text \<open>
  C1, as stated, fails: the counter is a field of the parser that nothing resets, so the
  first footnote of the second chapter of \<open>doc_two_chapters\<close> gets note id 1, not 0.
\<close>

theorem noteIds_not_reset_per_chapter:
  "parsedFootnoteIds (parse 0 doc_two_chapters) = [[0], [1]]
   \<and> \<not> countedPerChapter (parsedFootnoteIds (parse 0 doc_two_chapters))"
proof -
  have "parsedFootnoteIds (parse 0 doc_two_chapters) = [[0], [1]]"
    by (simp add: parsedFootnoteIds_def doc_two_chapters_def evals)
  then show ?thesis
    by (simp add: countedPerChapter_def)
qed

text \<open>
  C1, amended. For every document that \<open>parse\<close> accepts, with the parser's counter at
  \<open>c\<close> before the call and at \<open>c'\<close> after it: the note ids of all footnotes of the tree,
  chapter after chapter, are the numbers from \<open>c\<close> up to \<open>c'\<close> in order (one counter that
  only goes up, running through the chapters; \<open>c\<close> is 0 for a new parser). So within
  every chapter the note ids are distinct; the note ids referred to in the chapter's
  content are, in order, the note ids of the chapter's own footnotes; and every such
  reference names exactly one footnote of that chapter.
\<close>

theorem noteIds_from_one_counter:
  assumes "parse c usx = Inr (tree, c')"
  shows "c \<le> c'
     \<and> concat (map footnoteIds (chapters (pt_content tree))) = [c..<c']
     \<and> (\<forall>ch \<in> set (chapters (pt_content tree)).
           distinct (footnoteIds ch)
         \<and> contentRefs (ch_content ch) = footnoteIds ch
         \<and> (\<forall>r \<in> set (contentRefs (ch_content ch)).
               length (filter (\<lambda>f. fn_noteId f = r) (ch_footnotes ch)) = 1))"
proof -
  from assms have root: "iterateRootContent (childNodes usx) usx c = (pt_content tree, c')"
    by (auto simp: parse_def Let_def split: option.splits if_splits prod.splits)
  note inv = iterateRootContent_noteIds [OF root]
  have d: "distinct (concat (map footnoteIds (chapters (pt_content tree))))"
    using inv by simp
  have "distinct (footnoteIds ch)
        \<and> contentRefs (ch_content ch) = footnoteIds ch
        \<and> (\<forall>r \<in> set (contentRefs (ch_content ch)).
               length (filter (\<lambda>f. fn_noteId f = r) (ch_footnotes ch)) = 1)"
    if ch: "ch \<in> set (chapters (pt_content tree))" for ch
  proof -
    have 1: "distinct (footnoteIds ch)"
      using distinct_concat_member [OF d] ch by simp
    have 2: "contentRefs (ch_content ch) = footnoteIds ch"
      using inv ch by simp
    show ?thesis
      using 1 2 filter_noteId_one [of "ch_footnotes ch"] by (simp add: footnoteIds_def)
  qed
  with inv show ?thesis by blast
qed

theorem noteIds_from_one_counter_witness:
  "parse 0 doc_two_chapters = Inr (fst (projr (parse 0 doc_two_chapters)), 2)
   \<and> concat (map footnoteIds (chapters (pt_content (fst (projr (parse 0 doc_two_chapters))))))
       = [0..<2]"
proof -
  have h: "parse 0 doc_two_chapters = Inr (fst (projr (parse 0 doc_two_chapters)), 2)"
    by (simp add: doc_two_chapters_def evals)
  from noteIds_from_one_counter [OF h] h show ?thesis by blast
qed

subsection \<open>The number of a milestone\<close>

lemma parseInt_0: "parseInt (ascii ''0'') = Num 0"
  by (simp add: parseInt_def roundToDouble_def ascii_def isWhiteSpace_def isDigit_def)

text \<open>
  Beyond \<open>2 ^ 53\<close> the digits are rounded to the nearest double, a tie to the even one;
  characters after the digits are ignored, and no digit gives NaN.
\<close>

lemma parseInt_rounds:
  "parseInt (ascii ''9007199254740993'') = Num 9007199254740992"
  "parseInt (ascii ''-9007199254740995'') = Num (- 9007199254740996)"
  "parseInt (ascii ''18014398509481985'') = Num 18014398509481984"
  "parseInt (ascii ''18014398509481987'') = Num 18014398509481988"
  "parseInt (ascii '' 12abc'') = Num 12"
  "parseInt (ascii ''abc'') = NaN"
  by (simp_all add: parseInt_def roundToDouble_def bitLength.simps ascii_def isWhiteSpace_def
        isDigit_def)

lemma orElse_None: "orElse None b = b"
  by (simp add: orElse_def)

lemma iterateChapterContent_number:
  "iterateChapterContent nodes gp ch c = (items, ch', c', left) \<Longrightarrow> ch_number ch' = ch_number ch"
  by (auto dest!: iterateChapterContent_allocates simp: allocates_def)

subsection \<open>The root content\<close>

lemma isHeadingStyle_paraWithStyle:
  "(isElement p \<and> nodeName p = ascii ''para'' \<and> isHeadingStyle (getAttribute p (ascii ''style'')))
   = paraWithStyle headingStyles p"
  by (auto simp: paraWithStyle_def isHeadingStyle_def headingStyles_def split: option.splits)

lemma iterateChapterContent_left_subset:
  "iterateChapterContent nodes gp ch c = (items, ch', c', left) \<Longrightarrow> set left \<subseteq> set nodes"
proof (induction nodes arbitrary: ch c items ch' c')
  case Nil
  then show ?case by simp
next
  case (Cons sibling rest)
  then show ?case
    by (fastforce split: if_splits prod.splits)
qed

lemma iterateRootContent_headings:
  "iterateRootContent nodes usx c = (items, c') \<Longrightarrow> RootHeading h \<in> set items \<Longrightarrow>
   \<exists>p \<in> set nodes. paraWithStyle headingStyles p \<and> h = headingContent p"
proof (induction nodes usx c arbitrary: items c' rule: iterateRootContent.induct)
  case (1 usx c)
  then show ?case by (simp add: iterateRootContent.simps)
next
  case (2 child rest usx c)
  let ?chapter = "\<lparr> ch_number = parseInt (orElse (getAttribute child (ascii ''number'')) (ascii ''0'')),
                     ch_content = [], ch_footnotes = [] \<rparr>"
  show ?case
  proof (cases "isElement child \<and> nodeName child = ascii ''chapter'' \<and>
                \<not> hasAttribute child (ascii ''eid'')")
    case True
    obtain contents ch1 c1 left where
      1: "iterateChapterContent rest usx ?chapter c = (contents, ch1, c1, left)"
      by (cases "iterateChapterContent rest usx ?chapter c") auto
    obtain more c2 where 2: "iterateRootContent left usx c1 = (more, c2)"
      by (cases "iterateRootContent left usx c1") auto
    from "2.prems" True 1 2
    have eq: "items = RootChapter (ch1 \<lparr> ch_content := contents \<rparr>) # more"
      by (auto simp: iterateRootContent.simps(2))
    with "2.prems"(2) have h: "RootHeading h \<in> set more" by simp
    from True have "\<not> \<not> isElement child" "nodeName child = ascii ''chapter''"
      "\<not> hasAttribute child (ascii ''eid'')" by auto
    from "2.IH"(3) [OF this refl refl 1 [symmetric] refl refl 2 h]
    obtain p where "p \<in> set left" "paraWithStyle headingStyles p \<and> h = headingContent p"
      by blast
    with iterateChapterContent_left_subset [OF 1] show ?thesis by auto
  next
    case False
    show ?thesis
    proof (cases "paraWithStyle headingStyles child")
      case True
      then have para: "isElement child" "nodeName child = ascii ''para''"
        "isHeadingStyle (getAttribute child (ascii ''style''))"
        using isHeadingStyle_paraWithStyle [of child] by auto
      then have nc: "nodeName child \<noteq> ascii ''chapter''" by (simp add: ascii_def)
      obtain more c2 where 2: "iterateRootContent rest usx c = (more, c2)"
        by (cases "iterateRootContent rest usx c") auto
      from "2.prems"(1) para nc 2 have eq: "items = RootHeading (headingContent child) # more"
        by (auto simp: iterateRootContent.simps(2))
      show ?thesis
      proof (cases "h = headingContent child")
        case True
        with \<open>paraWithStyle headingStyles child\<close> show ?thesis by auto
      next
        case False
        with eq "2.prems"(2) have "RootHeading h \<in> set more" by simp
        from "2.IH"(4) [OF _ nc para(2,3) 2 this] para(1) show ?thesis by auto
      qed
    next
      case notheading: False
      then have nh: "\<not> (isElement child \<and> nodeName child = ascii ''para'' \<and>
                      isHeadingStyle (getAttribute child (ascii ''style'')))"
        using isHeadingStyle_paraWithStyle [of child] by simp
      with False "2.prems"(1) have "iterateRootContent rest usx c = (items, c')"
        by (auto simp: iterateRootContent.simps(2) split: if_splits)
      moreover have "\<exists>p \<in> set rest. paraWithStyle headingStyles p \<and> h = headingContent p"
        if "iterateRootContent rest usx c = (items, c')"
        using that False nh "2.IH"(1,2,5,6) "2.prems"(2) by blast
      ultimately show ?thesis by auto
    qed
  qed
qed

text \<open>
  C9. Every heading among the root items of a parse tree is \<open>headingContent\<close> of a child
  of the root element that is a \<open>para\<close> of style \<open>s1\<close> to \<open>s4\<close> (the other root items are
  chapters, by the type of \<open>iterateRootContent\<close>). And a node that \<open>iterateRootContent\<close> comes
  to outside a chapter (a text node, a verse milestone, a \<open>para\<close> of another style: anything
  but a \<open>chapter\<close> element and a heading paragraph) is passed over: the result is that of
  the nodes after it.
\<close>

theorem root_content_items:
  "(\<forall>tree c' h. parse c usx = Inr (tree, c') \<and> RootHeading h \<in> set (pt_content tree) \<longrightarrow>
      (\<exists>p \<in> set (childNodes usx). paraWithStyle headingStyles p \<and> h = headingContent p))
   \<and> (\<not> (isElement x \<and> nodeName x = ascii ''chapter'') \<and> \<not> paraWithStyle headingStyles x \<longrightarrow>
        iterateRootContent (x # rest) usx c = iterateRootContent rest usx c)"
proof (intro conjI allI impI)
  fix tree c' h
  assume a: "parse c usx = Inr (tree, c') \<and> RootHeading h \<in> set (pt_content tree)"
  then have "iterateRootContent (childNodes usx) usx c = (pt_content tree, c')"
    by (auto simp: parse_def Let_def split: option.splits if_splits prod.splits)
  from iterateRootContent_headings [OF this] a
  show "\<exists>p \<in> set (childNodes usx). paraWithStyle headingStyles p \<and> h = headingContent p"
    by blast
next
  assume "\<not> (isElement x \<and> nodeName x = ascii ''chapter'') \<and> \<not> paraWithStyle headingStyles x"
  then show "iterateRootContent (x # rest) usx c = iterateRootContent rest usx c"
    using isHeadingStyle_paraWithStyle [of x]
    by (auto simp: iterateRootContent.simps(2))
qed

theorem root_content_items_witness:
  "parse 0 doc_root_level
     = Inr (\<lparr> pt_id = ascii ''GEN'', pt_header = None, pt_title = None,
               pt_content = [RootHeading [ascii ''The Creation'']] \<rparr>, 0)
   \<and> (\<exists>p \<in> set (childNodes doc_root_level).
         paraWithStyle headingStyles p \<and> [ascii ''The Creation''] = headingContent p)
   \<and> iterateRootContent [el ''verse'' [(''number'', ''1'')] [], tx ''stray''] doc_root_level 0
       = iterateRootContent [tx ''stray''] doc_root_level 0"
proof -
  have h: "parse 0 doc_root_level
     = Inr (\<lparr> pt_id = ascii ''GEN'', pt_header = None, pt_title = None,
               pt_content = [RootHeading [ascii ''The Creation'']] \<rparr>, 0)"
    by (simp add: doc_root_level_def evals)
  have n: "\<not> (isElement (el ''verse'' [(''number'', ''1'')] []) \<and>
               nodeName (el ''verse'' [(''number'', ''1'')] []) = ascii ''chapter'')
           \<and> \<not> paraWithStyle headingStyles (el ''verse'' [(''number'', ''1'')] [])"
    by (simp add: el_def ascii_def paraWithStyle_def)
  from root_content_items [of 0 doc_root_level "el ''verse'' [(''number'', ''1'')] []" "[tx ''stray'']"]
    h n show ?thesis
    by simp
qed

subsection \<open>The book code\<close>

text \<open>
  C6, as stated, fails: \<open>querySelector('book[code]')\<close> takes the first \<open>book\<close> element that
  has a code attribute, and \<open>parse\<close> throws when that one's code is empty, although a later
  \<open>book\<close> element has a code that is not.
\<close>

theorem parse_fails_despite_book_code:
  "hasBookWithNonEmptyCode doc_two_books \<and> parse 0 doc_two_books = Inl MissingBookCode"
  by (simp add: hasBookWithNonEmptyCode_def doc_two_books_def evals)

text \<open>
  C6, amended. \<open>parse\<close> throws exactly when the first \<open>book\<close> element with a code
  attribute, in document order among the descendants of the root, does not exist (its first
  error) or has the empty code (its second error); when it returns, the tree's id is the
  code of that element, and it is not empty.
\<close>

theorem parse_fails_iff:
  "(parse c usx = Inl MissingBookElement \<longleftrightarrow> find bookWithCode (descendants usx) = None)
   \<and> (parse c usx = Inl MissingBookCode \<longleftrightarrow>
        (\<exists>b. find bookWithCode (descendants usx) = Some b \<and>
             getAttribute b (ascii ''code'') = Some []))
   \<and> (\<forall>tree c'. parse c usx = Inr (tree, c') \<longrightarrow>
        (\<exists>b. find bookWithCode (descendants usx) = Some b \<and>
             getAttribute b (ascii ''code'') = Some (pt_id tree) \<and> pt_id tree \<noteq> []))
   \<and> (isl (parse c usx) \<longleftrightarrow>
        (case find bookWithCode (descendants usx) of
           None \<Rightarrow> True
         | Some b \<Rightarrow> getAttribute b (ascii ''code'') = Some []))"
proof -
  have code: "getAttribute b (ascii ''code'') \<noteq> None"
    if "find bookWithCode (descendants usx) = Some b" for b
    using that by (auto simp: find_Some_iff bookWithCode_def hasAttribute_def)
  show ?thesis
  proof (cases "find bookWithCode (descendants usx)")
    case None
    then show ?thesis by (simp add: parse_def querySelector_def)
  next
    case (Some b)
    with code [OF Some] show ?thesis
      by (auto simp: parse_def querySelector_def orElse_def Let_def split: prod.splits)
  qed
qed

theorem parse_fails_iff_witness:
  "parse 0 doc_root_level
     = Inr (\<lparr> pt_id = ascii ''GEN'', pt_header = None, pt_title = None,
               pt_content = [RootHeading [ascii ''The Creation'']] \<rparr>, 0)
   \<and> (\<exists>b. find bookWithCode (descendants doc_root_level) = Some b \<and>
            getAttribute b (ascii ''code'') = Some (ascii ''GEN''))"
proof -
  have h: "parse 0 doc_root_level
     = Inr (\<lparr> pt_id = ascii ''GEN'', pt_header = None, pt_title = None,
               pt_content = [RootHeading [ascii ''The Creation'']] \<rparr>, 0)"
    by (simp add: doc_root_level_def evals)
  from parse_fails_iff [of 0 doc_root_level] h show ?thesis
    by auto
qed

subsection \<open>Title and header\<close>

text \<open>
  C7, as stated, fails: \<open>.filter(t => t)\<close> drops the empty text contents before the join,
  so an empty \<open>mt2\<close> paragraph before the \<open>mt1\<close> paragraph leaves no leading space.
\<close>

theorem title_skips_empty_paragraphs:
  "parsedTitle (parse 0 doc_empty_title) = Some (ascii ''Genesis'')
   \<and> claimedTitle doc_empty_title = Some (ascii '' Genesis'')"
  by (simp add: parsedTitle_def claimedTitle_def titleStyles_def doc_empty_title_def evals)

text \<open>
  C7, amended. The title is the text contents of the \<open>mt1\<close>, \<open>mt2\<close>, \<open>mt3\<close> paragraphs
  below the root that are not empty, in document order, joined by one space; there is no
  title when there is no such paragraph. The header is the text content of the first
  \<open>para\<close> of style \<open>h\<close>, and there is none without such a paragraph.
\<close>

theorem title_and_header:
  assumes "parse c usx = Inr (tree, c')"
  shows "pt_title tree =
           (if filter (paraWithStyle titleStyles) (descendants usx) = [] then None
            else Some (join (ascii '' '')
                   (filter (\<lambda>t. t \<noteq> [])
                      (map textContent (filter (paraWithStyle titleStyles) (descendants usx))))))
       \<and> pt_header tree = map_option textContent (find (paraWithStyle [ascii ''h'']) (descendants usx))"
proof -
  have "orElse (Some s) [] = s" for s
    by (simp add: orElse_def)
  with assms show ?thesis
    by (auto simp: parse_def querySelector_def querySelectorAll_def titleStyles_def Let_def
                   map_option_case
             split: option.splits if_splits prod.splits)
qed

theorem title_and_header_witness:
  "parse 0 doc_titles = Inr (fst (projr (parse 0 doc_titles)), 0)
   \<and> pt_title (fst (projr (parse 0 doc_titles))) = Some (ascii ''The First Book of Moses Genesis'')
   \<and> pt_header (fst (projr (parse 0 doc_titles))) = Some (ascii ''Genesis'')"
proof -
  have h: "parse 0 doc_titles = Inr (fst (projr (parse 0 doc_titles)), 0)"
    by (simp add: doc_titles_def evals)
  have "filter (paraWithStyle titleStyles) (descendants doc_titles)
          = [el ''para'' [(''style'', ''mt2'')] [tx ''The First Book of Moses''],
             el ''para'' [(''style'', ''mt1'')] [tx ''Genesis'']]"
       "find (paraWithStyle [ascii ''h'']) (descendants doc_titles)
          = Some (el ''para'' [(''style'', ''h'')] [tx ''Genesis''])"
    by (simp_all add: doc_titles_def titleStyles_def evals)
  with title_and_header [OF h] h show ?thesis
    by (simp add: el_def tx_def ascii_def)
qed

subsection \<open>Poetry\<close>

text \<open>
  C4, as stated, fails: the second entry does not keep its leading space, because
  \<open>trimContent\<close> trims every entry of the verse's content.
\<close>

theorem poetry_leading_space_removed:
  "parsedContent (parse 0 doc_poetry)
     \<noteq> [[Verse (Num 3) [Text (ascii ''blessed'') (Some 2) True,
                         Text (ascii '' are the poor'') (Some 2) False]]]"
  by (simp add: parsedContent_def doc_poetry_def para_q2_def evals)

text \<open>
  C4, amended. The paragraph of C4 under an open verse, whether the verse was opened in
  the paragraph before or in the \<open>q2\<close> paragraph itself, gives the verse the two entries
  \<open>{text: "blessed", poem: 2, wordsOfJesus: true}\<close> and \<open>{text: "are the poor", poem: 2}\<close>:
  both carry the poetry level, the span keeps \<open>wordsOfJesus\<close>, they are not merged, and the
  second has lost its leading space. The space is still there in what \<open>iterateVerseContent\<close>
  yields, before \<open>trimContent\<close>.
\<close>

theorem poetry_tagging:
  "parsedContent (parse 0 doc_poetry)
     = [[Verse (Num 3) [Text (ascii ''blessed'') (Some 2) True,
                        Text (ascii ''are the poor'') (Some 2) False]]]
   \<and> parsedContent (parse 0 doc_poetry_inside)
     = [[Verse (Num 3) [Text (ascii ''blessed'') (Some 2) True,
                        Text (ascii ''are the poor'') (Some 2) False]]]
   \<and> fst (iterateVerseContent [] (el ''para'' [(''style'', ''p'')] [el ''verse'' [(''number'', ''3'')] []])
             doc_poetry [para_q2]
             \<lparr> ch_number = Num 5, ch_content = [], ch_footnotes = [] \<rparr> (Num 3) 0)
     = [Text (ascii ''blessed'') (Some 2) True, Text (ascii '' are the poor'') (Some 2) False]"
  by (simp add: parsedContent_def doc_poetry_def doc_poetry_inside_def para_q2_def evals)

subsection \<open>Adjacent entries\<close>

text \<open>
  C2. \<open>addOrJoin\<close> joins an item to the last entry when it is appended, and \<open>trimContent\<close>
  afterwards drops the entries that are empty once trimmed, without joining what they kept
  apart. In \<open>doc_adjacent\<close> the content of verse 7 ends with two adjacent text objects of
  the same formatting, and that of verse 8 with two adjacent strings.
\<close>

theorem adjacent_entries_after_trimming:
  "parsedContent (parse 0 doc_adjacent)
     = [[Verse (Num 7) [Text (ascii ''Ask'') None True, Text (ascii ''Seek'') None True],
         Verse (Num 8) [Plain (ascii ''abc''), Plain (ascii ''def'')]]]
   \<and> \<not> contentCoalesced (Verse (Num 7) [Text (ascii ''Ask'') None True, Text (ascii ''Seek'') None True])
   \<and> \<not> contentCoalesced (Verse (Num 8) [Plain (ascii ''abc''), Plain (ascii ''def'')])"
  by (simp add: parsedContent_def doc_adjacent_def evals)

subsection \<open>Verse numbers\<close>

lemma verseNumbers_append: "verseNumbers (xs @ ys) = verseNumbers xs @ verseNumbers ys"
  by (induction xs rule: verseNumbers.induct) auto

lemma names_distinct:
  "ascii ''verse'' \<noteq> ascii ''chapter''" "ascii ''para'' \<noteq> ascii ''chapter''"
  "ascii ''chapter'' \<noteq> ascii ''verse''" "ascii ''chapter'' \<noteq> ascii ''para''"
  by (simp_all add: ascii_def)

lemma iterateChapterParaVerseContent_loop_numbers:
  "iterateChapterParaVerseContent_loop nodes para gp uncles ch c = (items, ch', c') \<Longrightarrow>
   verseNumbers items = paraVerseNumbers nodes"
proof (induction nodes arbitrary: ch c items ch' c')
  case Nil
  then show ?case by simp
next
  case (Cons e rest)
  then show ?case
    by (auto simp: isStartMilestone_def milestoneNumber_def Let_def names_distinct
             split: prod.splits if_splits)
qed

lemma iterateChapterParaContent_numbers:
  assumes "iterateChapterParaContent para gp uncles ch c = (items, ch', c')"
  shows "verseNumbers items = (if carriesVerses para then paraVerseNumbers (childNodes para) else [])"
proof -
  have d: "ascii ''d'' \<notin> set ignoredParaStyles" "ascii ''b'' \<notin> set ignoredParaStyles"
    by (simp_all add: ignoredParaStyles_def ascii_def)
  show ?thesis
    using d assms
    by (auto simp: iterateChapterParaContent_def carriesVerses_def Let_def orElse_def
                   iterateChapterParaVerseContent_def parseHebrewSubtitle_def
             dest: iterateChapterParaVerseContent_loop_numbers
             split: prod.splits option.splits if_splits)
qed

lemma iterateChapterContent_numbers:
  "iterateChapterContent nodes gp ch c = (items, ch', c', left) \<Longrightarrow>
   verseNumbers items = chapterVerseNumbers nodes"
proof (induction nodes arbitrary: ch c items ch' c')
  case Nil
  then show ?case by simp
next
  case (Cons n rest)
  show ?case
  proof (cases "isElement n \<and> nodeName n = ascii ''para''")
    case True
    obtain contents ch1 c1 where 1: "iterateChapterParaContent n gp rest ch c = (contents, ch1, c1)"
      by (cases "iterateChapterParaContent n gp rest ch c") auto
    obtain more ch2 c2 left2 where 2: "iterateChapterContent rest gp ch1 c1 = (more, ch2, c2, left2)"
      by (cases "iterateChapterContent rest gp ch1 c1") auto
    from Cons.prems True 1 2 have eq: "items = contents @ more" "left = left2"
      by auto
    from iterateChapterParaContent_numbers [OF 1] Cons.IH [OF 2 [folded eq(2)]] True
    show ?thesis
      by (simp add: eq verseNumbers_append names_distinct)
  next
    case False
    with Cons show ?thesis by (auto split: if_splits)
  qed
qed


lemma iterateChapterContent_suffix:
  "iterateChapterContent nodes gp ch c = (items, ch', c', left) \<Longrightarrow> \<exists>pre. nodes = pre @ left"
proof (induction nodes arbitrary: ch c items ch' c')
  case Nil
  then show ?case by simp
next
  case (Cons n rest)
  have "\<exists>pre. n # rest = pre @ left" if "\<exists>pre. rest = pre @ left"
    using that by (metis append_Cons)
  with Cons show ?case
    by (auto split: if_splits prod.splits intro: exI [of _ "[n]"])
qed

lemma iterateRootContent_chapters:
  "iterateRootContent nodes usx c = (items, c') \<Longrightarrow> ch \<in> set (chapters items) \<Longrightarrow>
   \<exists>pre start siblings. nodes = pre @ start # siblings
      \<and> isStartMilestone (ascii ''chapter'') start
      \<and> ch_number ch = milestoneNumber start
      \<and> verseNumbers (ch_content ch) = chapterVerseNumbers siblings"
proof (induction nodes usx c arbitrary: items c' rule: iterateRootContent.induct)
  case (1 usx c)
  then show ?case by (simp add: iterateRootContent.simps)
next
  case (2 child rest usx c)
  let ?chapter = "\<lparr> ch_number = parseInt (orElse (getAttribute child (ascii ''number'')) (ascii ''0'')),
                     ch_content = [], ch_footnotes = [] \<rparr>"
  have step: "\<exists>pre start siblings. child # rest = pre @ start # siblings
      \<and> isStartMilestone (ascii ''chapter'') start
      \<and> ch_number ch = milestoneNumber start
      \<and> verseNumbers (ch_content ch) = chapterVerseNumbers siblings"
    if "\<exists>pre start siblings. rest = pre @ start # siblings
      \<and> isStartMilestone (ascii ''chapter'') start
      \<and> ch_number ch = milestoneNumber start
      \<and> verseNumbers (ch_content ch) = chapterVerseNumbers siblings"
    using that by (metis append_Cons)
  show ?case
  proof (cases "isElement child \<and> nodeName child = ascii ''chapter'' \<and>
                \<not> hasAttribute child (ascii ''eid'')")
    case True
    obtain contents ch1 c1 left where
      1: "iterateChapterContent rest usx ?chapter c = (contents, ch1, c1, left)"
      by (cases "iterateChapterContent rest usx ?chapter c") auto
    obtain more c2 where 2: "iterateRootContent left usx c1 = (more, c2)"
      by (cases "iterateRootContent left usx c1") auto
    from "2.prems" True 1 2
    have eq: "items = RootChapter (ch1 \<lparr> ch_content := contents \<rparr>) # more"
      by (auto simp: iterateRootContent.simps(2))
    show ?thesis
    proof (cases "ch = ch1 \<lparr> ch_content := contents \<rparr>")
      case here: True
      have "ch_number ch = milestoneNumber child"
        using here iterateChapterContent_number [OF 1] by (simp add: milestoneNumber_def)
      moreover have "verseNumbers (ch_content ch) = chapterVerseNumbers rest"
        using here iterateChapterContent_numbers [OF 1] by simp
      moreover have "isStartMilestone (ascii ''chapter'') child"
        using True by (simp add: isStartMilestone_def)
      ultimately show ?thesis
        by (intro exI [of _ "[]"] exI [of _ child] exI [of _ rest]) simp
    next
      case False
      with eq "2.prems"(2) have m: "ch \<in> set (chapters more)" by simp
      from True have "\<not> \<not> isElement child" "nodeName child = ascii ''chapter''"
        "\<not> hasAttribute child (ascii ''eid'')" by auto
      from "2.IH"(3) [OF this refl refl 1 [symmetric] refl refl 2 m]
      obtain pre start siblings where l: "left = pre @ start # siblings"
        "isStartMilestone (ascii ''chapter'') start" "ch_number ch = milestoneNumber start"
        "verseNumbers (ch_content ch) = chapterVerseNumbers siblings"
        by blast
      from iterateChapterContent_suffix [OF 1] obtain pre0 where "rest = pre0 @ left"
        by blast
      with l have "rest = (pre0 @ pre) @ start # siblings" by simp
      with l(2-4) have "\<exists>pre start siblings. rest = pre @ start # siblings
          \<and> isStartMilestone (ascii ''chapter'') start
          \<and> ch_number ch = milestoneNumber start
          \<and> verseNumbers (ch_content ch) = chapterVerseNumbers siblings"
        by blast
      then show ?thesis by (rule step)
    qed
  next
    case False
    show ?thesis
    proof (rule step)
      show "\<exists>pre start siblings. rest = pre @ start # siblings
          \<and> isStartMilestone (ascii ''chapter'') start
          \<and> ch_number ch = milestoneNumber start
          \<and> verseNumbers (ch_content ch) = chapterVerseNumbers siblings"
        using False "2.prems" "2.IH"(1,2,4,5,6)
        by (auto simp: iterateRootContent.simps(2) split: if_splits prod.splits)
    qed
  qed
qed

text \<open>
  C3, as stated, fails: the parser takes the number of a verse from its milestone and
  checks nothing. Verses numbered 2, 1 and one without a number come out as 2, 1, 0.
\<close>

theorem verse_numbers_not_validated:
  "parsedContent (parse 0 doc_verse_order)
     = [[Verse (Num 2) [Plain (ascii ''two'')], Verse (Num 1) [Plain (ascii ''one'')],
         Verse (Num 0) [Plain (ascii ''none'')]]]
   \<and> \<not> list_all versesIncreasingFromOne (parsedContent (parse 0 doc_verse_order))"
  by (simp add: parsedContent_def doc_verse_order_def versesIncreasingFromOne_def evals)

text \<open>
  C3, amended. Every chapter of a parse tree comes from a \<open>chapter\<close> start milestone
  among the children of the root; its number is the number of that milestone, and the
  numbers of its verses, in the order of its content, are the numbers of the verse start
  milestones in the paragraphs that follow the chapter's milestone, in document order. So
  the verse numbers are at least 1 and strictly increasing exactly when the numbers
  written in the document are.
\<close>

theorem verse_numbers_follow_milestones:
  assumes "parse c usx = Inr (tree, c')" "ch \<in> set (chapters (pt_content tree))"
  shows "\<exists>pre start siblings. childNodes usx = pre @ start # siblings
      \<and> isStartMilestone (ascii ''chapter'') start
      \<and> ch_number ch = milestoneNumber start
      \<and> verseNumbers (ch_content ch) = chapterVerseNumbers siblings"
proof -
  from assms(1) have "iterateRootContent (childNodes usx) usx c = (pt_content tree, c')"
    by (auto simp: parse_def Let_def split: option.splits if_splits prod.splits)
  from iterateRootContent_chapters [OF this assms(2)] show ?thesis .
qed

theorem verse_numbers_follow_milestones_witness:
  "parse 0 doc_verse_order = Inr (fst (projr (parse 0 doc_verse_order)), 0)
   \<and> chapters (pt_content (fst (projr (parse 0 doc_verse_order)))) \<noteq> []
   \<and> (\<exists>pre start siblings. childNodes doc_verse_order = pre @ start # siblings
      \<and> isStartMilestone (ascii ''chapter'') start
      \<and> ch_number (hd (chapters (pt_content (fst (projr (parse 0 doc_verse_order))))))
          = milestoneNumber start
      \<and> verseNumbers (ch_content (hd (chapters (pt_content (fst (projr (parse 0 doc_verse_order)))))))
          = chapterVerseNumbers siblings)"
proof -
  have h: "parse 0 doc_verse_order = Inr (fst (projr (parse 0 doc_verse_order)), 0)"
    by (simp add: doc_verse_order_def evals)
  have n: "chapters (pt_content (fst (projr (parse 0 doc_verse_order)))) \<noteq> []"
    by (simp add: doc_verse_order_def evals)
  then have m: "hd (chapters (pt_content (fst (projr (parse 0 doc_verse_order)))))
      \<in> set (chapters (pt_content (fst (projr (parse 0 doc_verse_order)))))"
    by simp
  from verse_numbers_follow_milestones [OF h m] h n show ?thesis
    by blast
qed

subsection \<open>The text of a footnote\<close>




lemma list_all_takeWhile: "list_all P (takeWhile P xs)"
  by (induction xs) auto





text \<open>
  \<open>trimText\<close> keeps the characters that are not white space and leaves a collapsed string;
  \<open>trim\<close> takes white space off both ends and nothing else.
\<close>

lemma filter_dropWhile_not:
  "filter (\<lambda>x. \<not> P x) (dropWhile P xs) = filter (\<lambda>x. \<not> P x) xs"
  by (induction xs) auto

lemma trimText_keeps:
  "filter (\<lambda>c. \<not> isWhiteSpace c) (trimText s) = filter (\<lambda>c. \<not> isWhiteSpace c) s"
proof (induction s rule: trimText.induct)
  case 1
  then show ?case by simp
next
  case (2 c cs)
  have sp: "isWhiteSpace 0x20" by (simp add: isWhiteSpace_def)
  show ?case
  proof (cases "isWhiteSpace c")
    case True
    with 2 sp show ?thesis by (simp add: filter_dropWhile_not)
  next
    case False
    with 2 show ?thesis by simp
  qed
qed

lemma trimText_head:
  "trimText s = [] \<or> (if s \<noteq> [] \<and> \<not> isWhiteSpace (hd s) then hd (trimText s) = hd s
                        else hd (trimText s) = 0x20)"
  by (cases s) auto

lemma trimText_collapsed: "collapsed (trimText s)"
proof (induction s rule: trimText.induct)
  case 1
  then show ?case by simp
next
  case (2 c cs)
  show ?case
  proof (cases "isWhiteSpace c")
    case True
    let ?r = "dropWhile isWhiteSpace cs"
    have "trimText ?r = [] \<or> \<not> isWhiteSpace (hd (trimText ?r))"
    proof (cases ?r)
      case Nil
      then show ?thesis by (simp del: dropWhile_eq_Nil_conv)
    next
      case (Cons d ds)
      then have "\<not> isWhiteSpace d"
        by (metis hd_dropWhile list.sel(1) list.distinct(1))
      with Cons show ?thesis by simp
    qed
    with True 2 show ?thesis by simp
  next
    case False
    with 2 show ?thesis by simp
  qed
qed

lemma trim_trimmed:
  "trim s = [] \<or> (\<not> isWhiteSpace (hd (trim s)) \<and> \<not> isWhiteSpace (last (trim s)))"
proof (cases "dropWhile isWhiteSpace s")
  case Nil
  then show ?thesis by (simp add: trim_def del: dropWhile_eq_Nil_conv)
next
  case (Cons d ds)
  then have d: "\<not> isWhiteSpace d"
    by (metis hd_dropWhile list.sel(1) list.distinct(1))
  have "dropWhile isWhiteSpace (rev ds @ [d]) = dropWhile isWhiteSpace (rev ds) @ [d]"
    using d by (simp add: dropWhile_append3)
  then have t: "trim s = d # rev (dropWhile isWhiteSpace (rev ds))"
    using Cons by (simp add: trim_def)
  have "last (trim s) = hd (dropWhile isWhiteSpace (rev (dropWhile isWhiteSpace s)))"
    using t unfolding trim_def by (metis last_rev list.distinct(1) rev_is_Nil_conv)
  moreover have "dropWhile isWhiteSpace (rev (dropWhile isWhiteSpace s)) \<noteq> []"
    using t unfolding trim_def by (metis list.distinct(1) rev_is_Nil_conv)
  ultimately have "\<not> isWhiteSpace (last (trim s))"
    by (metis hd_dropWhile)
  with t d show ?thesis by simp
qed

lemma trim_split:
  "\<exists>a b. s = a @ trim s @ b \<and> list_all isWhiteSpace a \<and> list_all isWhiteSpace b"
proof -
  let ?t = "dropWhile isWhiteSpace s"
  have 1: "s = takeWhile isWhiteSpace s @ ?t" by simp
  have "trim s @ rev (takeWhile isWhiteSpace (rev ?t))
          = rev (takeWhile isWhiteSpace (rev ?t) @ dropWhile isWhiteSpace (rev ?t))"
    by (simp only: trim_def rev_append)
  also have "\<dots> = rev (rev ?t)"
    by (simp only: takeWhile_dropWhile_id)
  finally have 2: "?t = trim s @ rev (takeWhile isWhiteSpace (rev ?t))"
    by simp
  have "s = takeWhile isWhiteSpace s @ trim s @ rev (takeWhile isWhiteSpace (rev ?t))"
    using 1 2 by metis
  moreover have "list_all isWhiteSpace (takeWhile isWhiteSpace s)"
    by (rule list_all_takeWhile)
  moreover have "list_all isWhiteSpace (rev (takeWhile isWhiteSpace (rev ?t)))"
    using list_all_takeWhile [of isWhiteSpace "rev ?t"] by (simp add: list_all_iff)
  ultimately show ?thesis by blast
qed


subsection \<open>What joining and trimming do achieve\<close>

text \<open>
  The two halves of C2 each hold at one stage. What \<open>addOrJoin\<close> has built, before
  \<open>trimContent\<close> runs, is coalesced; and after \<open>trimContent\<close> every entry is trimmed, so
  none is empty. The document of C2 shows that the first does not survive the second.
\<close>

lemma coalesced_snoc:
  "coalesced (xs @ [y]) = (coalesced xs \<and> (xs = [] \<or> \<not> joinable (last xs) y))"
  by (induction xs rule: coalesced.induct) auto

lemma joinable_plain: "joinable z (Plain a) \<Longrightarrow> joinable z (Plain b)"
  by (cases z) simp_all

lemma joinable_text: "joinable z (Text a p w) \<Longrightarrow> joinable z (Text b p w)"
  by (cases z) simp_all

lemma addOrJoin_coalesced:
  assumes "coalesced xs"
  shows "coalesced (addOrJoin xs v)"
proof (cases xs rule: rev_cases)
  case Nil
  then show ?thesis by (simp add: addOrJoin_def)
next
  case (snoc ys l)
  with assms have c: "coalesced ys" "ys = [] \<or> \<not> joinable (last ys) l"
    by (simp_all add: coalesced_snoc)
  show ?thesis
  proof (cases "joinable l v")
    case True
    then show ?thesis
      using c snoc
      by (cases l; cases v)
         (auto simp: addOrJoin_def coalesced_snoc dest: joinable_plain joinable_text)
  next
    case False
    then have e: "addOrJoin xs v = xs @ [v]"
      using snoc by (cases l; cases v) (auto simp: addOrJoin_def)
    have "last xs = l" using snoc by simp
    with False assms have "coalesced (xs @ [v])"
      unfolding coalesced_snoc by simp
    with e show ?thesis by simp
  qed
qed

lemma foldl_addOrJoin_coalesced:
  "coalesced acc \<Longrightarrow> coalesced (foldl addOrJoin acc xs)"
  by (induction xs arbitrary: acc) (auto simp: addOrJoin_coalesced)

lemma content_coalesced_before_trimming:
  "coalesced (foldl addOrJoin [] xs)"
  by (rule foldl_addOrJoin_coalesced) simp

lemma collapsed_append: "collapsed (xs @ ys) \<Longrightarrow> collapsed xs \<and> collapsed ys"
proof (induction xs)
  case Nil
  then show ?case by simp
next
  case (Cons x xs)
  then show ?case
    by (cases xs) (auto split: if_splits)
qed

lemma trim_collapsed: "collapsed s \<Longrightarrow> collapsed (trim s)"
proof -
  assume c: "collapsed s"
  obtain a b where "s = a @ trim s @ b"
    using trim_split by blast
  with c have "collapsed (a @ trim s @ b)" by simp
  then show ?thesis
    using collapsed_append by blast
qed

lemma trim_trimText_trimmed: "trim (trimText s) \<noteq> [] \<Longrightarrow> trimmedString (trim (trimText s))"
  using trim_trimmed [of "trimText s"] trim_collapsed [OF trimText_collapsed, of s]
  by (auto simp: trimmedString_def)

lemma trimContent_entries: "list_all trimmedEntry (trimContent xs)"
  by (induction xs rule: trimContent.induct) (auto simp: Let_def trim_trimText_trimmed)

subsection \<open>Notes\<close>









lemma wordsOf_dropWhile: "wordsOf (dropWhile isWhiteSpace s) = wordsOf s"
  by (subst wordsOf.simps, subst (2) wordsOf.simps) (simp add: Let_def dropWhile_idem)

















lemma wordsOf_Nil: "wordsOf [] = []"
  by (subst wordsOf.simps) simp

lemma wordsOf_Cons:
  "wordsOf (c # cs) =
     (if isWhiteSpace c then wordsOf cs
      else (c # takeWhile (\<lambda>c. \<not> isWhiteSpace c) cs)
           # wordsOf (dropWhile (\<lambda>c. \<not> isWhiteSpace c) cs))"
proof (cases "isWhiteSpace c")
  case True
  have "wordsOf (c # cs) = wordsOf (dropWhile isWhiteSpace (c # cs))"
    by (rule wordsOf_dropWhile [symmetric])
  also have "\<dots> = wordsOf (dropWhile isWhiteSpace cs)" using True by simp
  also have "\<dots> = wordsOf cs" by (rule wordsOf_dropWhile)
  finally show ?thesis using True by simp
next
  case False
  then show ?thesis
    by (subst wordsOf.simps) (simp add: Let_def)
qed










lemmas noteEvals = noteText_def normalizeSpace_def wordsOf_Nil wordsOf_Cons
  leadingVerseReference_def matchesVerseReference_def footnoteOf_def isFootnote_def
  addFootnotes_def

lemma noteText_tests:
  "noteText (ascii ''1:1  In the   beginning '') = ascii ''In the beginning''"
  "noteText (ascii '' 119:176 x'') = ascii ''x''"
  "noteText (ascii ''1234:5 x'') = ascii ''1234:5 x''"
  "noteText (ascii ''12:3456'') = ascii ''6''"
  "noteText (ascii ''Gen 1:1'') = ascii ''Gen 1:1''"
  "noteText (ascii ''1:1'') = []"
  by (simp_all add: noteEvals ascii_def isWhiteSpace_def isDigit_def trim_def)




subsection \<open>Chapters and verses that milestones open\<close>

lemma iterateChapterContent_afterChapter:
  "iterateChapterContent nodes gp ch c = (items, ch', c', left) \<Longrightarrow> left = afterChapter nodes"
proof (induction nodes arbitrary: ch c items ch' c')
  case Nil
  then show ?case by simp
next
  case (Cons n rest)
  then show ?case
    by (auto simp: names_distinct split: if_splits prod.splits)
qed

lemma iterateRootContent_opened:
  "iterateRootContent nodes usx c = (items, c') \<Longrightarrow>
   map numbersOf (chapters items) = map milestoneNumbers (openedChapters nodes)"
proof (induction nodes usx c arbitrary: items c' rule: iterateRootContent.induct)
  case (1 usx c)
  then show ?case by (simp add: iterateRootContent.simps openedChapters.simps)
next
  case (2 child rest usx c)
  let ?chapter = "\<lparr> ch_number = parseInt (orElse (getAttribute child (ascii ''number'')) (ascii ''0'')),
                     ch_content = [], ch_footnotes = [] \<rparr>"
  show ?case
  proof (cases "isElement child \<and> nodeName child = ascii ''chapter'' \<and>
                \<not> hasAttribute child (ascii ''eid'')")
    case True
    obtain contents ch1 c1 left where
      1: "iterateChapterContent rest usx ?chapter c = (contents, ch1, c1, left)"
      by (cases "iterateChapterContent rest usx ?chapter c") auto
    obtain more c2 where 2: "iterateRootContent left usx c1 = (more, c2)"
      by (cases "iterateRootContent left usx c1") auto
    from "2.prems" True 1 2
    have eq: "items = RootChapter (ch1 \<lparr> ch_content := contents \<rparr>) # more"
      by (auto simp: iterateRootContent.simps(2))
    from True have t: "\<not> \<not> isElement child" "nodeName child = ascii ''chapter''"
      "\<not> hasAttribute child (ascii ''eid'')" by auto
    have ih: "map numbersOf (chapters more) = map milestoneNumbers (openedChapters left)"
      by (rule "2.IH"(3) [OF t refl refl 1 [symmetric] refl refl 2])
    have left: "left = afterChapter rest"
      by (rule iterateChapterContent_afterChapter [OF 1])
    have here: "numbersOf (ch1 \<lparr> ch_content := contents \<rparr>) = milestoneNumbers (child, rest)"
      using iterateChapterContent_number [OF 1] iterateChapterContent_numbers [OF 1]
      by (simp add: numbersOf_def milestoneNumbers_def milestoneNumber_def)
    have "openedChapters (child # rest) = (child, rest) # openedChapters (afterChapter rest)"
      using True by (simp add: openedChapters.simps isStartMilestone_def)
    with ih left here show ?thesis
      by (simp add: eq)
  next
    case False
    then have o: "openedChapters (child # rest) = openedChapters rest"
      by (auto simp: openedChapters.simps isStartMilestone_def)
    from False "2.prems" "2.IH"(1,2,4,5,6) show ?thesis
      unfolding o
      by (auto simp: iterateRootContent.simps(2) split: if_splits prod.splits)
  qed
qed

text \<open>
  C10, as stated, fails. In \<open>doc_swallowed\<close> the second \<open>chapter\<close> element has neither
  \<open>eid\<close> nor \<open>number\<close>, and the \<open>verse\<close> element after it has neither; the parse has one
  chapter, number 1, with one verse, number 1. The loop of \<open>iterateChapterContent\<close> for
  chapter 1 takes the second \<open>chapter\<close> element off the shared iterator when it stops at
  it, so \<open>iterateRootContent\<close> never sees it, it opens no chapter, and the paragraph after
  it is outside every chapter.
\<close>

theorem milestones_swallowed:
  "parsedNumbers (parse 0 doc_swallowed) = [(Num 1, [Num 1])]
   \<and> list_ex (\<lambda>n. isStartMilestone (ascii ''chapter'') n \<and> getAttribute n (ascii ''number'') = None)
        (descendants doc_swallowed)
   \<and> list_ex (\<lambda>n. isStartMilestone (ascii ''verse'') n \<and> getAttribute n (ascii ''number'') = None)
        (descendants doc_swallowed)"
  by (simp add: parsedNumbers_def numbersOf_def doc_swallowed_def isStartMilestone_def evals)

text \<open>
  C10, amended. A milestone without a \<open>number\<close> attribute has the number 0, and the
  parser does not fail on it: \<open>parse\<close> returns a tree whenever the first \<open>book\<close> element
  with a \<open>code\<close> attribute has a non-empty code. The chapters of the tree are the chapter
  start milestones of \<open>openedChapters\<close>, in order and with the milestones' numbers: a
  chapter start milestone among the children of the root opens a chapter unless it is the
  first \<open>chapter\<close> element after a start milestone that has opened one. The verses of a
  chapter are the verse start milestones of \<open>chapterVerseNumbers\<close>, with the milestones'
  numbers: the ones among the children of the paragraphs of the chapter that carry
  verses, up to a \<open>chapter\<close> element in the paragraph.
\<close>

theorem milestones_without_number:
  "(getAttribute e (ascii ''number'') = None \<longrightarrow> milestoneNumber e = Num 0)
   \<and> (\<forall>tree c'. parse c usx = Inr (tree, c') \<longrightarrow>
         map numbersOf (chapters (pt_content tree))
           = map milestoneNumbers (openedChapters (childNodes usx)))
   \<and> (\<forall>b. querySelector usx bookWithCode = Some b
            \<and> orElse (getAttribute b (ascii ''code'')) [] \<noteq> [] \<longrightarrow>
          (\<exists>tree c'. parse c usx = Inr (tree, c')))"
proof (intro conjI allI impI)
  assume "getAttribute e (ascii ''number'') = None"
  then show "milestoneNumber e = Num 0"
    by (simp add: milestoneNumber_def orElse_None parseInt_0)
next
  fix tree c'
  assume "parse c usx = Inr (tree, c')"
  then have "iterateRootContent (childNodes usx) usx c = (pt_content tree, c')"
    by (auto simp: parse_def Let_def split: option.splits if_splits prod.splits)
  then show "map numbersOf (chapters (pt_content tree))
           = map milestoneNumbers (openedChapters (childNodes usx))"
    by (rule iterateRootContent_opened)
next
  fix b
  assume "querySelector usx bookWithCode = Some b
            \<and> orElse (getAttribute b (ascii ''code'')) [] \<noteq> []"
  then show "\<exists>tree c'. parse c usx = Inr (tree, c')"
    by (simp add: parse_def Let_def split: prod.splits)
qed

theorem milestones_without_number_witness:
  "querySelector doc_no_numbers bookWithCode = Some (el ''book'' [(''code'', ''GEN'')] [])
   \<and> parse 0 doc_no_numbers = Inr (fst (projr (parse 0 doc_no_numbers)), 0)
   \<and> map numbersOf (chapters (pt_content (fst (projr (parse 0 doc_no_numbers)))))
       = [(Num 0, [Num 0])]
   \<and> (\<exists>tree c'. parse 0 doc_no_numbers = Inr (tree, c'))
   \<and> milestoneNumber (el ''verse'' [] []) = Num 0"
proof -
  have q: "querySelector doc_no_numbers bookWithCode = Some (el ''book'' [(''code'', ''GEN'')] [])"
    "orElse (getAttribute (el ''book'' [(''code'', ''GEN'')] []) (ascii ''code'')) [] \<noteq> []"
    by (simp_all add: doc_no_numbers_def evals)
  have h: "parse 0 doc_no_numbers = Inr (fst (projr (parse 0 doc_no_numbers)), 0)"
    by (simp add: doc_no_numbers_def evals)
  have o: "map milestoneNumbers (openedChapters (childNodes doc_no_numbers)) = [(Num 0, [Num 0])]"
    by (simp add: doc_no_numbers_def milestoneNumbers_def milestoneNumber_def isStartMilestone_def
          carriesVerses_def openedChapters.simps evals)
  have n: "getAttribute (el ''verse'' [] []) (ascii ''number'') = None"
    by (simp add: el_def)
  note m = milestones_without_number [of "el ''verse'' [] []" 0 doc_no_numbers]
  from m n have a: "milestoneNumber (el ''verse'' [] []) = Num 0"
    by blast
  from m h have b: "map numbersOf (chapters (pt_content (fst (projr (parse 0 doc_no_numbers)))))
       = map milestoneNumbers (openedChapters (childNodes doc_no_numbers))"
    by blast
  from m q have c: "\<exists>tree c'. parse 0 doc_no_numbers = Inr (tree, c')"
    by blast
  from o a b c h q(1) show ?thesis
    by simp
qed

end
